theory Spec2Isabelle
  imports Complex_Main
begin

section \<open>The inverter: \<open>devices/inverter.py\<close>\<close>

text \<open>
  A Python float is a real number here, and \<open>process_energy\<close> reads the
  arithmetic of the method as exact; infinities and NaN are left out.  The
  rounding of each float operation to a double is added in
  \<open>process_energy_rounded\<close> below, which is the same method with the
  rounding as a parameter; properties that depend on the rounding are stated
  on it.  The hour is a Python int.

  The battery (\<open>self.akku\<close>) is an object of a class that is not part of the
  two source files.  It is a parameter of the model: a state of any type
  \<open>'b\<close> and the two methods \<open>process_energy\<close> calls on it, each taking the
  state, the requested energy and the hour, and returning the pair the Python
  method returns together with the state after the call.  The self consumption
  predictor is a function of consumption and generation.
\<close>

record 'b battery =
  discharge_energy :: "'b \<Rightarrow> real \<Rightarrow> int \<Rightarrow> (real \<times> real) \<times> 'b"
  charge_energy :: "'b \<Rightarrow> real \<Rightarrow> int \<Rightarrow> (real \<times> real) \<times> 'b"

record 'b inverter =
  max_power_wh :: real
  calculate_self_consumption :: "real \<Rightarrow> real \<Rightarrow> real"
  akku :: "'b battery"

text \<open>
  The result is the tuple \<open>(grid_export, grid_import, losses, self_consumption)\<close>
  of the source, paired with the battery state after the call.  The branches,
  their order and the order of the two battery calls are those of the source
  (lines 70 to 134).
\<close>

definition process_energy ::
  "'b inverter \<Rightarrow> 'b \<Rightarrow> real \<Rightarrow> real \<Rightarrow> int \<Rightarrow> (real \<times> real \<times> real \<times> real) \<times> 'b" where
  "process_energy self s generation consumption hour =
    (if generation \<ge> consumption then
       (if consumption > max_power_wh self then
          (let losses = 0 + (generation - max_power_wh self);
               remaining_power = max_power_wh self - consumption;
               grid_import = - remaining_power;
               self_consumption = max_power_wh self
           in ((0, grid_import, losses, self_consumption), s))
        else
          (let scr = calculate_self_consumption self consumption generation;
               remaining_power = (generation - consumption) * scr;
               remaining_load_evq = (generation - consumption) * (1 - scr);
               (from_battery, losses1, grid_import, s1) =
                 (if remaining_load_evq > 0 then
                    (let ((from_battery, discharge_losses), s1) =
                           discharge_energy (akku self) s remaining_load_evq hour;
                         remaining_load_evq' = remaining_load_evq - from_battery;
                         losses1 = 0 + discharge_losses
                     in (from_battery, losses1,
                         (if remaining_load_evq' > 0 then 0 + remaining_load_evq' else 0), s1))
                  else (0, 0, 0, s));
               (grid_export, losses2, s2) =
                 (if remaining_power > 0 then
                    (let ((charged_energie, charge_losses), s2) =
                           charge_energy (akku self) s1 remaining_power hour;
                         remaining_surplus = remaining_power - (charged_energie + charge_losses);
                         (grid_export, losses') =
                           (if remaining_surplus > max_power_wh self - consumption then
                              (max_power_wh self - consumption,
                               losses1 + (remaining_surplus - (max_power_wh self - consumption)))
                            else (remaining_surplus, losses1))
                     in (grid_export, losses' + charge_losses, s2))
                  else (0, losses1, s1));
               self_consumption = consumption + from_battery
           in ((grid_export, grid_import, losses2, self_consumption), s2)))
     else
       (let shortfall = consumption - generation;
            available_ac_power = max (max_power_wh self - generation) 0;
            ((battery_discharge, discharge_losses), s1) =
              discharge_energy (akku self) s (min shortfall available_ac_power) hour;
            losses = 0 + discharge_losses;
            grid_import = shortfall - battery_discharge;
            self_consumption = generation + battery_discharge
        in ((0, grid_import, losses, self_consumption), s1)))"

text \<open>The four fields of the returned tuple.\<close>

definition grid_export_of :: "(real \<times> real \<times> real \<times> real) \<times> 'b \<Rightarrow> real" where
  "grid_export_of r = fst (fst r)"

definition grid_import_of :: "(real \<times> real \<times> real \<times> real) \<times> 'b \<Rightarrow> real" where
  "grid_import_of r = fst (snd (fst r))"

definition losses_of :: "(real \<times> real \<times> real \<times> real) \<times> 'b \<Rightarrow> real" where
  "losses_of r = fst (snd (snd (fst r)))"

definition self_consumption_of :: "(real \<times> real \<times> real \<times> real) \<times> 'b \<Rightarrow> real" where
  "self_consumption_of r = snd (snd (snd (fst r)))"

text \<open>
  The contract of the battery port (spec, section 4.2): a call with a request
  \<open>amount \<ge> 0\<close> applies between \<open>0\<close> and \<open>amount\<close> and reports losses \<open>\<ge> 0\<close>.
\<close>

definition op_in_contract :: "('b \<Rightarrow> real \<Rightarrow> int \<Rightarrow> (real \<times> real) \<times> 'b) \<Rightarrow> bool" where
  "op_in_contract f \<longleftrightarrow>
     (\<forall>s amount hour. 0 \<le> amount \<longrightarrow>
        0 \<le> fst (fst (f s amount hour)) \<and> fst (fst (f s amount hour)) \<le> amount
        \<and> 0 \<le> snd (fst (f s amount hour)))"

definition battery_in_contract :: "'b battery \<Rightarrow> bool" where
  "battery_in_contract b \<longleftrightarrow> op_in_contract (discharge_energy b) \<and> op_in_contract (charge_energy b)"

text \<open>The contract of the predictor (spec, section 4.3): a ratio in \<open>[0, 1]\<close>.\<close>

definition predictor_in_contract :: "(real \<Rightarrow> real \<Rightarrow> real) \<Rightarrow> bool" where
  "predictor_in_contract p \<longleftrightarrow> (\<forall>c g. 0 \<le> p c g \<and> p c g \<le> 1)"

text \<open>
  A charge call that also accounts for its losses inside the request: what is
  stored plus what is lost is at most what was requested.
\<close>

definition charge_within_request :: "'b battery \<Rightarrow> bool" where
  "charge_within_request b \<longleftrightarrow>
     (\<forall>s amount hour. 0 \<le> amount \<longrightarrow>
        fst (fst (charge_energy b s amount hour)) + snd (fst (charge_energy b s amount hour))
          \<le> amount)"

subsection \<open>Batteries used as concrete inputs\<close>

text \<open>
  A battery whose state is the list of the calls made on it, latest first.
  \<open>idle_battery\<close> applies nothing; \<open>lossy_battery\<close> applies the whole request
  and reports a loss of 100 on top; \<open>efficient_battery\<close> applies 90 percent of
  the request and loses the other 10 percent.
\<close>

datatype call = Discharge real int | Charge real int

definition idle_battery :: "call list battery" where
  "idle_battery =
     \<lparr>discharge_energy = (\<lambda>s a h. ((0, 0), Discharge a h # s)),
      charge_energy = (\<lambda>s a h. ((0, 0), Charge a h # s))\<rparr>"

definition lossy_battery :: "call list battery" where
  "lossy_battery =
     \<lparr>discharge_energy = (\<lambda>s a h. ((a, 100), Discharge a h # s)),
      charge_energy = (\<lambda>s a h. ((a, 100), Charge a h # s))\<rparr>"

definition efficient_battery :: "call list battery" where
  "efficient_battery =
     \<lparr>discharge_energy = (\<lambda>s a h. ((a * 9 / 10, a / 10), Discharge a h # s)),
      charge_energy = (\<lambda>s a h. ((a * 9 / 10, a / 10), Charge a h # s))\<rparr>"

definition mk_inverter :: "real \<Rightarrow> real \<Rightarrow> 'b battery \<Rightarrow> 'b inverter" where
  "mk_inverter mp ratio b =
     \<lparr>max_power_wh = mp, calculate_self_consumption = (\<lambda>c g. ratio), akku = b\<rparr>"

subsection \<open>Float operations with rounding\<close>

text \<open>
  \<open>fl64\<close> rounds a real to the nearest IEEE 754 binary64 number, ties to the
  even significand, as every float operation of Python rounds its exact
  result.  \<open>binary_exponent\<close> finds the \<open>e\<close> with \<open>2^e \<le> x < 2^(e+1)\<close> by at
  most 1100 halvings or doublings; below \<open>2^-1022\<close> the quantum is that of the
  subnormal numbers whatever the search returns.  Results beyond the largest
  double, which Python turns into \<open>inf\<close>, are outside the model.
\<close>

primrec binary_exponent :: "nat \<Rightarrow> real \<Rightarrow> int" where
  "binary_exponent 0 x = 0"
| "binary_exponent (Suc fuel) x =
     (if 2 \<le> x then binary_exponent fuel (x / 2) + 1
      else if x < 1 then binary_exponent fuel (x * 2) - 1
      else 0)"

definition round_half_even :: "real \<Rightarrow> int" where
  "round_half_even r =
     (let f = \<lfloor>r\<rfloor>; d = r - of_int f
      in if d < 1/2 then f else if 1/2 < d then f + 1 else if even f then f else f + 1)"

definition pow2 :: "int \<Rightarrow> real" where
  "pow2 e = (if 0 \<le> e then 2 ^ nat e else 1 / 2 ^ nat (- e))"

definition fl64 :: "real \<Rightarrow> real" where
  "fl64 x =
     (if x = 0 then 0
      else
        (let e = max (binary_exponent 1100 \<bar>x\<bar>) (- 1022);
             quantum = pow2 (e - 52);
             m = round_half_even (\<bar>x\<bar> / quantum)
         in sgn x * (of_int m * quantum)))"

text \<open>
  \<open>process_energy\<close> (lines 62 to 134) with the result of every \<open>+\<close>, \<open>-\<close> and
  \<open>*\<close> of the source passed through \<open>rnd\<close>; negation, comparison, \<open>max\<close> and
  \<open>min\<close> do not round.  With \<open>rnd = fl64\<close> it is the method on doubles, with
  the identity it is \<open>process_energy\<close>.
\<close>

definition process_energy_rounded ::
  "(real \<Rightarrow> real) \<Rightarrow> 'b inverter \<Rightarrow> 'b \<Rightarrow> real \<Rightarrow> real \<Rightarrow> int
     \<Rightarrow> (real \<times> real \<times> real \<times> real) \<times> 'b" where
  "process_energy_rounded rnd self s generation consumption hour =
    (if generation \<ge> consumption then
       (if consumption > max_power_wh self then
          (let losses = rnd (0 + rnd (generation - max_power_wh self));
               remaining_power = rnd (max_power_wh self - consumption);
               grid_import = - remaining_power;
               self_consumption = max_power_wh self
           in ((0, grid_import, losses, self_consumption), s))
        else
          (let scr = calculate_self_consumption self consumption generation;
               remaining_power = rnd (rnd (generation - consumption) * scr);
               remaining_load_evq = rnd (rnd (generation - consumption) * rnd (1 - scr));
               (from_battery, losses1, grid_import, s1) =
                 (if remaining_load_evq > 0 then
                    (let ((from_battery, discharge_losses), s1) =
                           discharge_energy (akku self) s remaining_load_evq hour;
                         remaining_load_evq' = rnd (remaining_load_evq - from_battery);
                         losses1 = rnd (0 + discharge_losses)
                     in (from_battery, losses1,
                         (if remaining_load_evq' > 0 then rnd (0 + remaining_load_evq') else 0), s1))
                  else (0, 0, 0, s));
               (grid_export, losses2, s2) =
                 (if remaining_power > 0 then
                    (let ((charged_energie, charge_losses), s2) =
                           charge_energy (akku self) s1 remaining_power hour;
                         remaining_surplus =
                           rnd (remaining_power - rnd (charged_energie + charge_losses));
                         (grid_export, losses') =
                           (if remaining_surplus > rnd (max_power_wh self - consumption) then
                              (rnd (max_power_wh self - consumption),
                               rnd (losses1
                                 + rnd (remaining_surplus - rnd (max_power_wh self - consumption))))
                            else (remaining_surplus, losses1))
                     in (grid_export, rnd (losses' + charge_losses), s2))
                  else (0, losses1, s1));
               self_consumption = rnd (consumption + from_battery)
           in ((grid_export, grid_import, losses2, self_consumption), s2)))
     else
       (let shortfall = rnd (consumption - generation);
            available_ac_power = max (rnd (max_power_wh self - generation)) 0;
            ((battery_discharge, discharge_losses), s1) =
              discharge_energy (akku self) s (min shortfall available_ac_power) hour;
            losses = rnd (0 + discharge_losses);
            grid_import = rnd (shortfall - battery_discharge);
            self_consumption = rnd (generation + battery_discharge)
        in ((0, grid_import, losses, self_consumption), s1)))"

text \<open>
  An operation with exact result \<open>x\<close> is rounded with relative error at most
  \<open>u\<close>.
\<close>

definition rounds_within :: "(real \<Rightarrow> real) \<Rightarrow> real \<Rightarrow> real \<Rightarrow> bool" where
  "rounds_within rnd u x \<longleftrightarrow> \<bar>rnd x - x\<bar> \<le> u * \<bar>x\<bar>"

text \<open>The doubles that the Python literals 0.2, 0.7, 0.9, 2542.1, 5027.1 and 7569.2 denote.\<close>

definition double_0_2 :: real where
  "double_0_2 = fl64 (2/10)"

definition double_0_7 :: real where
  "double_0_7 = fl64 (7/10)"

definition double_0_9 :: real where
  "double_0_9 = fl64 (9/10)"

definition double_2542_1 :: real where
  "double_2542_1 = fl64 (25421/10)"

definition double_5027_1 :: real where
  "double_5027_1 = fl64 (50271/10)"

definition double_7569_2 :: real where
  "double_7569_2 = fl64 (75692/10)"

section \<open>The load forecast: \<open>prediction/loadakkudoktor.py\<close>\<close>

subsection \<open>Exceptions, numpy indexing\<close>

text \<open>
  The exceptions of Python that the two methods can meet.  \<open>OtherError\<close>
  stands for any exception class not named here (an \<open>OSError\<close> of the
  read, a damaged archive, an exception of a collaborator).
\<close>

datatype py_error =
  FileNotFoundError | KeyError | TypeError | ValueError | IndexError | ZeroDivisionError
  | OtherError

text \<open>
  Indexing a numpy axis of size \<open>n\<close> with a Python int: \<open>-n \<le> i < 0\<close>
  counts from the end, anything outside \<open>-n \<le> i < n\<close> raises IndexError.
\<close>

definition np_pos :: "nat \<Rightarrow> int \<Rightarrow> py_error + nat" where
  "np_pos n i =
     (if 0 \<le> i \<and> i < int n then Inr (nat i)
      else if - int n \<le> i \<and> i < 0 then Inr (nat (i + int n))
      else Inl IndexError)"

definition np_index :: "'a list \<Rightarrow> int \<Rightarrow> py_error + 'a" where
  "np_index xs i = (case np_pos (length xs) i of Inl e \<Rightarrow> Inl e | Inr j \<Rightarrow> Inr (xs ! j))"

text \<open>The statement \<open>a[i] += v\<close> on a one-dimensional array.\<close>

definition np_add_at :: "real list \<Rightarrow> int \<Rightarrow> real \<Rightarrow> py_error + real list" where
  "np_add_at xs i v =
     (case np_pos (length xs) i of Inl e \<Rightarrow> Inl e | Inr j \<Rightarrow> Inr (xs[j := xs ! j + v]))"

subsection \<open>The profile table and \<open>load_data\<close>\<close>

text \<open>
  \<open>data_year_energy\<close> is the array \<open>load_data\<close> builds, of shape
  \<open>[day][stat][hour]\<close> with the two stats mean and std: a list of days, each
  the pair of its row of means and its row of standard deviations.
  \<open>data_year_energy[d, :, h]\<close> is \<open>hourly_stats\<close>; its component 0 is the mean.
\<close>

type_synonym profile_table = "(real list \<times> real list) list"

definition hourly_stats :: "profile_table \<Rightarrow> int \<Rightarrow> int \<Rightarrow> py_error + (real \<times> real)" where
  "hourly_stats data_year_energy d h =
     (case np_index data_year_energy d of
        Inl e \<Rightarrow> Inl e
      | Inr (means, stds) \<Rightarrow>
          (case np_index means h of
             Inl e \<Rightarrow> Inl e
           | Inr m \<Rightarrow> (case np_index stds h of Inl e \<Rightarrow> Inl e | Inr sd \<Rightarrow> Inr (m, sd))))"

text \<open>
  The archive \<open>np.load\<close> returns maps a key to a two-dimensional array (a list
  of rows); a key that is not in the archive raises KeyError.
\<close>

type_synonym npz = "string \<Rightarrow> real list list option"

definition npz_getitem :: "npz \<Rightarrow> string \<Rightarrow> py_error + real list list" where
  "npz_getitem file_data key = (case file_data key of None \<Rightarrow> Inl KeyError | Some a \<Rightarrow> Inr a)"

text \<open>
  \<open>np.array(list(zip(a, b)))\<close>: \<open>zip\<close> stops at the shorter array; rows of
  different lengths make no array (ValueError, numpy 1.24 and later).
\<close>

definition np_array_zip :: "real list list \<Rightarrow> real list list \<Rightarrow> py_error + profile_table" where
  "np_array_zip a b =
     (if list_all (\<lambda>(m, sd). length m = length sd) (zip a b) then Inr (zip a b)
      else Inl ValueError)"

text \<open>
  The product of the array with a scalar.  The scalar is the configuration
  value, a float or \<open>None\<close>: numpy multiplies element by element, the product
  of a float and \<open>None\<close> raises TypeError, and an array with no element has
  no such product.
\<close>

definition np_scale :: "profile_table \<Rightarrow> real \<Rightarrow> profile_table" where
  "np_scale t k = map (\<lambda>(m, sd). (map (\<lambda>x. x * k) m, map (\<lambda>x. x * k) sd)) t"

definition np_mul :: "profile_table \<Rightarrow> real option \<Rightarrow> py_error + profile_table" where
  "np_mul t k =
     (case k of
        Some y \<Rightarrow> Inr (np_scale t y)
      | None \<Rightarrow> (if list_all (\<lambda>(m, sd). m = [] \<and> sd = []) t then Inr t else Inl TypeError))"

record config =
  loadakkudoktor_year_energy :: "real option"

text \<open>
  The body of the \<open>try\<close> (lines 90 to 95).  \<open>loaded\<close> is what
  \<open>np.load(load_file)\<close> does: the exception it raises (FileNotFoundError when
  the file is missing) or the archive.
\<close>

definition load_data_try :: "py_error + npz \<Rightarrow> config \<Rightarrow> py_error + profile_table" where
  "load_data_try loaded cfg =
     (case loaded of
        Inl e \<Rightarrow> Inl e
      | Inr file_data \<Rightarrow>
          (case npz_getitem file_data ''yearly_profiles'' of
             Inl e \<Rightarrow> Inl e
           | Inr yearly_profiles \<Rightarrow>
               (case npz_getitem file_data ''yearly_profiles_std'' of
                  Inl e \<Rightarrow> Inl e
                | Inr yearly_profiles_std \<Rightarrow>
                    (case np_array_zip yearly_profiles yearly_profiles_std of
                       Inl e \<Rightarrow> Inl e
                     | Inr profile_data \<Rightarrow>
                         (case np_mul profile_data (loadakkudoktor_year_energy cfg) of
                            Inl e \<Rightarrow> Inl e
                          | Inr scaled \<Rightarrow> np_mul scaled (Some 1000))))))"

text \<open>The two \<open>except\<close> clauses (lines 96 to 103) and the return.\<close>

definition load_data :: "py_error + npz \<Rightarrow> config \<Rightarrow> py_error + profile_table" where
  "load_data loaded cfg =
     (case load_data_try loaded cfg of
        Inl e \<Rightarrow> (if e = FileNotFoundError then Inl FileNotFoundError else Inl ValueError)
      | Inr data_year_energy \<Rightarrow> Inr data_year_energy)"

subsection \<open>\<open>_calculate_adjustment\<close>\<close>

text \<open>
  The datetime type and the helpers \<open>to_duration\<close> and \<open>compare_datetimes\<close>
  come from modules outside the two source files; the model takes them as
  parameters.  A datetime is a value of any type \<open>'dt\<close>, a duration is a
  number of hours, and \<open>datetime_ops\<close> holds the operations the method uses:
  the attributes \<open>day_of_year\<close>, \<open>hour\<close> and \<open>day_of_week\<close>, \<open>dt - duration\<close>,
  \<open>dt + duration\<close>, \<open>compare_datetimes(a, b).lt\<close> and \<open>(a - b).days\<close>.
\<close>

record 'dt datetime_ops =
  dt_day_of_year :: "'dt \<Rightarrow> int"
  dt_hour :: "'dt \<Rightarrow> int"
  dt_day_of_week :: "'dt \<Rightarrow> int"
  dt_sub :: "'dt \<Rightarrow> int \<Rightarrow> 'dt"
  dt_add :: "'dt \<Rightarrow> int \<Rightarrow> 'dt"
  dt_lt :: "'dt \<Rightarrow> 'dt \<Rightarrow> bool"
  dt_days_between :: "'dt \<Rightarrow> 'dt \<Rightarrow> int"

definition seven_days :: int where
  "seven_days = 7 * 24"

definition one_hour :: int where
  "one_hour = 1"

text \<open>
  \<open>self.measurement\<close>: the two bounds of the measured range (\<open>None\<close> when
  nothing was measured) and the query \<open>load_total(start, end, interval)\<close>,
  which may raise.
\<close>

record 'dt measurement =
  max_datetime :: "'dt option"
  min_datetime :: "'dt option"
  load_total :: "'dt \<Rightarrow> 'dt \<Rightarrow> int \<Rightarrow> py_error + real list"

text \<open>The four arrays of lines 40 to 43.\<close>

record adjust_arrays =
  weekday_adjust :: "real list"
  weekday_adjust_weight :: "real list"
  weekend_adjust :: "real list"
  weekend_adjust_weight :: "real list"

definition np_zeros_arrays :: adjust_arrays where
  "np_zeros_arrays =
     \<lparr>weekday_adjust = replicate 24 0, weekday_adjust_weight = replicate 24 0,
      weekend_adjust = replicate 24 0, weekend_adjust_weight = replicate 24 0\<rparr>"

text \<open>
  One pass of the body of the first loop (lines 64 to 74) at the datetime
  \<open>compare_dt\<close>.  The weight is the quotient of the Python ints \<open>1\<close> and
  \<open>(compare_end - compare_dt).days + 1\<close>, which raises ZeroDivisionError at 0.
\<close>

definition adjust_step ::
  "'dt datetime_ops \<Rightarrow> profile_table \<Rightarrow> 'dt \<Rightarrow> 'dt \<Rightarrow> real \<Rightarrow> adjust_arrays
     \<Rightarrow> py_error + adjust_arrays" where
  "adjust_step ops data_year_energy compare_end compare_dt load_total_i arrs =
     (case hourly_stats data_year_energy (dt_day_of_year ops compare_dt - 1) (dt_hour ops compare_dt) of
        Inl e \<Rightarrow> Inl e
      | Inr stats \<Rightarrow>
          (if dt_days_between ops compare_end compare_dt + 1 = 0 then Inl ZeroDivisionError
           else
             (let weight = 1 / real_of_int (dt_days_between ops compare_end compare_dt + 1) in
              if dt_day_of_week ops compare_dt < 5 then
                (case np_add_at (weekday_adjust arrs) (dt_hour ops compare_dt)
                        ((load_total_i - fst stats) * weight) of
                   Inl e \<Rightarrow> Inl e
                 | Inr a \<Rightarrow>
                     (case np_add_at (weekday_adjust_weight arrs) (dt_hour ops compare_dt) weight of
                        Inl e \<Rightarrow> Inl e
                      | Inr w \<Rightarrow> Inr (arrs\<lparr>weekday_adjust := a, weekday_adjust_weight := w\<rparr>)))
              else
                (case np_add_at (weekend_adjust arrs) (dt_hour ops compare_dt)
                        ((load_total_i - fst stats) * weight) of
                   Inl e \<Rightarrow> Inl e
                 | Inr a \<Rightarrow>
                     (case np_add_at (weekend_adjust_weight arrs) (dt_hour ops compare_dt) weight of
                        Inl e \<Rightarrow> Inl e
                      | Inr w \<Rightarrow> Inr (arrs\<lparr>weekend_adjust := a, weekend_adjust_weight := w\<rparr>))))))"

text \<open>
  The first loop (lines 62 to 75): over the elements of \<open>load_total_array\<close> in
  order, \<open>compare_dt\<close> moving on by one hour after each.
\<close>

fun adjust_loop ::
  "'dt datetime_ops \<Rightarrow> profile_table \<Rightarrow> 'dt \<Rightarrow> real list \<Rightarrow> 'dt \<Rightarrow> adjust_arrays
     \<Rightarrow> py_error + adjust_arrays" where
  "adjust_loop ops data_year_energy compare_end [] compare_dt arrs = Inr arrs"
| "adjust_loop ops data_year_energy compare_end (load_total_i # rest) compare_dt arrs =
     (case adjust_step ops data_year_energy compare_end compare_dt load_total_i arrs of
        Inl e \<Rightarrow> Inl e
      | Inr arrs' \<Rightarrow>
          adjust_loop ops data_year_energy compare_end rest (dt_add ops compare_dt one_hour) arrs')"

text \<open>The second loop (lines 77 to 81), \<open>i\<close> running over \<open>range(24)\<close>.\<close>

definition mean_step :: "nat \<Rightarrow> adjust_arrays \<Rightarrow> adjust_arrays" where
  "mean_step i arrs =
     (let arrs1 =
            (if weekday_adjust_weight arrs ! i > 0 then
               arrs\<lparr>weekday_adjust :=
                 (weekday_adjust arrs)[i := weekday_adjust arrs ! i / weekday_adjust_weight arrs ! i]\<rparr>
             else arrs)
      in if weekend_adjust_weight arrs1 ! i > 0 then
           arrs1\<lparr>weekend_adjust :=
             (weekend_adjust arrs1)[i := weekend_adjust arrs1 ! i / weekend_adjust_weight arrs1 ! i]\<rparr>
         else arrs1)"

definition calculate_mean :: "adjust_arrays \<Rightarrow> adjust_arrays" where
  "calculate_mean arrs = fold mean_step [0..<24] arrs"

text \<open>
  The method.  With no measurement it returns the array \<open>weekday_adjust\<close>
  twice (line 47).  \<open>compare_datetimes\<close> is not called with \<open>None\<close> by a
  measurement that has a latest datetime; the model answers \<open>OtherError\<close>
  there.
\<close>

definition calculate_adjustment ::
  "'dt datetime_ops \<Rightarrow> 'dt measurement \<Rightarrow> profile_table \<Rightarrow> py_error + (real list \<times> real list)" where
  "calculate_adjustment ops measurement data_year_energy =
     (case max_datetime measurement of
        None \<Rightarrow> Inr (weekday_adjust np_zeros_arrays, weekday_adjust np_zeros_arrays)
      | Some latest \<Rightarrow>
          (case min_datetime measurement of
             None \<Rightarrow> Inl OtherError
           | Some earliest \<Rightarrow>
               (let compare_start = dt_sub ops latest seven_days;
                    compare_start =
                      (if dt_lt ops compare_start earliest then earliest else compare_start);
                    compare_end = latest;
                    compare_interval = one_hour
                in case load_total measurement compare_start compare_end compare_interval of
                     Inl e \<Rightarrow> Inl e
                   | Inr load_total_array \<Rightarrow>
                       (case adjust_loop ops data_year_energy compare_end load_total_array
                               compare_start np_zeros_arrays of
                          Inl e \<Rightarrow> Inl e
                        | Inr arrs \<Rightarrow>
                            Inr (weekday_adjust (calculate_mean arrs),
                                 weekend_adjust (calculate_mean arrs))))))"

subsection \<open>The weighted mean of the specification\<close>

text \<open>
  The definitions of this subsection follow the words of the specification,
  not the code; the code is compared with them below.  The samples of the
  window are the elements of \<open>load_total_array\<close>, the i-th taken at
  \<open>compare_start\<close> plus i hours.  The weight of a sample is
  \<open>1 / (days_between(compare_end, t) + 1)\<close>, its residual is the measured
  total minus the baseline mean at \<open>(day_of_year - 1, hour)\<close>, its class is
  weekday when \<open>day_of_week < 5\<close>.  \<open>spec_weighted_mean\<close> is
  \<open>\<Sum>(residual * weight) / \<Sum>(weight)\<close> over the samples of one hour of day and
  one class, and 0 where the weight sum is 0.
\<close>

fun window_times :: "'dt datetime_ops \<Rightarrow> 'dt \<Rightarrow> nat \<Rightarrow> 'dt list" where
  "window_times ops t 0 = []"
| "window_times ops t (Suc n) = t # window_times ops (dt_add ops t one_hour) n"

definition window_samples :: "'dt datetime_ops \<Rightarrow> 'dt \<Rightarrow> real list \<Rightarrow> ('dt \<times> real) list" where
  "window_samples ops compare_start load_total_array =
     zip (window_times ops compare_start (length load_total_array)) load_total_array"

definition spec_weight :: "'dt datetime_ops \<Rightarrow> 'dt \<Rightarrow> 'dt \<Rightarrow> real" where
  "spec_weight ops compare_end t = 1 / (real_of_int (dt_days_between ops compare_end t) + 1)"

definition spec_residual :: "'dt datetime_ops \<Rightarrow> profile_table \<Rightarrow> 'dt \<Rightarrow> real \<Rightarrow> real" where
  "spec_residual ops data t measured_total =
     measured_total - fst (data ! nat (dt_day_of_year ops t - 1)) ! nat (dt_hour ops t)"

definition spec_in_class :: "'dt datetime_ops \<Rightarrow> bool \<Rightarrow> nat \<Rightarrow> 'dt \<Rightarrow> bool" where
  "spec_in_class ops weekday h t \<longleftrightarrow>
     dt_hour ops t = int h \<and> (dt_day_of_week ops t < 5) = weekday"

definition spec_weighted_mean ::
  "'dt datetime_ops \<Rightarrow> profile_table \<Rightarrow> 'dt \<Rightarrow> ('dt \<times> real) list \<Rightarrow> bool \<Rightarrow> nat \<Rightarrow> real" where
  "spec_weighted_mean ops data compare_end samples weekday h =
     (let sel = filter (\<lambda>(t, v). spec_in_class ops weekday h t) samples;
          weight_sum = sum_list (map (\<lambda>(t, v). spec_weight ops compare_end t) sel)
      in if weight_sum = 0 then 0
         else sum_list (map (\<lambda>(t, v). spec_residual ops data t v * spec_weight ops compare_end t) sel)
                / weight_sum)"

text \<open>
  What the specification takes for granted of the inputs: the table has the
  shape \<open>[366][2][24]\<close>; a datetime has an hour in \<open>0..23\<close> and a day of year
  in \<open>1..366\<close>; a sample of the window is not later than \<open>compare_end\<close>, so
  that the days between are \<open>\<ge> 0\<close>.
\<close>

definition table_shape :: "profile_table \<Rightarrow> bool" where
  "table_shape data \<longleftrightarrow>
     length data = 366 \<and> list_all (\<lambda>(m, sd). length m = 24 \<and> length sd = 24) data"

definition in_window :: "'dt datetime_ops \<Rightarrow> 'dt \<Rightarrow> 'dt \<Rightarrow> bool" where
  "in_window ops compare_end t \<longleftrightarrow>
     0 \<le> dt_hour ops t \<and> dt_hour ops t < 24
     \<and> 1 \<le> dt_day_of_year ops t \<and> dt_day_of_year ops t \<le> 366
     \<and> 0 \<le> dt_days_between ops compare_end t"

text \<open>Auxiliary notions for the proofs: the four arrays keep 24 entries each.\<close>

definition arrays_24 :: "adjust_arrays \<Rightarrow> bool" where
  "arrays_24 arrs \<longleftrightarrow>
     length (weekday_adjust arrs) = 24 \<and> length (weekday_adjust_weight arrs) = 24
     \<and> length (weekend_adjust arrs) = 24 \<and> length (weekend_adjust_weight arrs) = 24"

definition class_sum ::
  "'dt datetime_ops \<Rightarrow> bool \<Rightarrow> nat \<Rightarrow> ('dt \<Rightarrow> real \<Rightarrow> real) \<Rightarrow> ('dt \<times> real) list \<Rightarrow> real" where
  "class_sum ops weekday h f samples =
     sum_list (map (\<lambda>(t, v). f t v) (filter (\<lambda>(t, v). spec_in_class ops weekday h t) samples))"

subsection \<open>Concrete inputs of the load forecast\<close>

text \<open>
  A calendar for the year 2024, which starts on a Monday and has 366 days: a
  datetime is the number of hours since 1 January, 00:00.  \<open>flat_table\<close> has
  mean 100 and std 10 everywhere.  \<open>sample_measurement\<close> holds readings from
  Saturday 6 January, 00:00 (hour 120) to Tuesday 9 January, 00:00 (hour
  192), all equal to 100 except the four readings at midnight;
  \<open>sample_readings\<close> is the array its query returns for that range.
  \<open>no_measurement\<close> has no reading at all and a query that raises.
  \<open>sample_archive\<close> is an archive of two days of two hours.
\<close>

definition hours_ops :: "int datetime_ops" where
  "hours_ops =
     \<lparr>dt_day_of_year = (\<lambda>t. t div 24 + 1),
      dt_hour = (\<lambda>t. t mod 24),
      dt_day_of_week = (\<lambda>t. (t div 24) mod 7),
      dt_sub = (\<lambda>t d. t - d),
      dt_add = (\<lambda>t d. t + d),
      dt_lt = (\<lambda>a b. a < b),
      dt_days_between = (\<lambda>a b. (a - b) div 24)\<rparr>"

definition flat_table :: profile_table where
  "flat_table = replicate 366 (replicate 24 100, replicate 24 10)"

definition reading :: "int \<Rightarrow> real" where
  "reading t = (if t = 120 then 130 else if t = 144 then 190 else if t = 168 then 130
                else if t = 192 then 160 else 100)"

definition sample_measurement :: "int measurement" where
  "sample_measurement =
     \<lparr>max_datetime = Some 192, min_datetime = Some 120,
      load_total = (\<lambda>start end interval.
        Inr (map (\<lambda>k. reading (start + int k * interval))
               [0..<nat ((end - start) div interval) + 1]))\<rparr>"

definition sample_readings :: "real list" where
  "sample_readings = map (\<lambda>k. reading (120 + int k * 1)) [0..<nat ((192 - 120) div 1) + 1]"

definition no_measurement :: "int measurement" where
  "no_measurement =
     \<lparr>max_datetime = None, min_datetime = None,
      load_total = (\<lambda>start end interval. Inl OtherError)\<rparr>"

definition sample_archive :: npz where
  "sample_archive =
     (\<lambda>key. if key = ''yearly_profiles'' then Some [[1/2, 1/4], [1/8, 1/8]]
            else if key = ''yearly_profiles_std'' then Some [[1/10, 1/10], [1/20, 1/20]]
            else None)"

section \<open>Properties of the inverter\<close>

lemmas field_defs =
  grid_export_of_def grid_import_of_def losses_of_def self_consumption_of_def

lemma idle_in_contract: "battery_in_contract idle_battery"
  by (simp add: battery_in_contract_def op_in_contract_def idle_battery_def)

lemma lossy_in_contract: "battery_in_contract lossy_battery"
  by (simp add: battery_in_contract_def op_in_contract_def lossy_battery_def)

lemma efficient_in_contract: "battery_in_contract efficient_battery"
  by (simp add: battery_in_contract_def op_in_contract_def efficient_battery_def)

lemma efficient_within_request: "charge_within_request efficient_battery"
  by (simp add: charge_within_request_def efficient_battery_def)

lemma const_predictor_in_contract:
  "0 \<le> r \<Longrightarrow> r \<le> 1 \<Longrightarrow> predictor_in_contract (calculate_self_consumption (mk_inverter mp r b))"
  by (simp add: predictor_in_contract_def mk_inverter_def)


lemma op_in_contractD:
  assumes "op_in_contract f" and "0 \<le> a" and "f s a h = ((x, l), s')"
  shows "0 \<le> x" and "x \<le> a" and "0 \<le> l"
  using assms unfolding op_in_contract_def
  by (metis fst_conv, metis fst_conv, metis fst_conv snd_conv)

lemma charge_within_requestD:
  assumes "charge_within_request b" and "0 \<le> a" and "charge_energy b s a h = ((x, l), s')"
  shows "x + l \<le> a"
  using assms unfolding charge_within_request_def
  by (metis fst_conv snd_conv)

text \<open>
  The surplus branch (lines 78 to 117), once the answers of the two battery
  calls are named: \<open>(fb, dl)\<close> for the discharge of \<open>evq\<close>, made on \<open>s\<close>, and
  \<open>(ch, cl)\<close> for the charge of \<open>rp\<close>, made on the state the first call left.
\<close>

lemma process_energy_surplus:
  assumes le: "consumption \<le> generation" "consumption \<le> max_power_wh self"
    and rp: "rp = (generation - consumption) * calculate_self_consumption self consumption generation"
    and evq: "evq = (generation - consumption)
                     * (1 - calculate_self_consumption self consumption generation)"
    and d: "discharge_energy (akku self) s evq hour = ((fb, dl), s1)"
    and ce: "charge_energy (akku self) (if 0 < evq then s1 else s) rp hour = ((ch, cl), s2)"
  shows "process_energy self s generation consumption hour =
      (let (from_battery, losses1, grid_import, t1) =
             (if 0 < evq then (fb, dl, (if 0 < evq - fb then evq - fb else 0), s1)
              else (0, 0, 0, s));
           (grid_export, losses2, t2) =
             (if 0 < rp then
                (if max_power_wh self - consumption < rp - (ch + cl)
                 then (max_power_wh self - consumption,
                       losses1 + (rp - (ch + cl) - (max_power_wh self - consumption)) + cl, s2)
                 else (rp - (ch + cl), losses1 + cl, s2))
              else (0, losses1, t1))
       in ((grid_export, grid_import, losses2, consumption + from_battery), t2))"
proof (cases "0 < evq")
  case True
  with ce have "charge_energy (akku self) s1 rp hour = ((ch, cl), s2)"
    by simp
  with True le d show ?thesis
    by (simp add: process_energy_def Let_def rp [symmetric] evq [symmetric])
next
  case False
  with ce have "charge_energy (akku self) s rp hour = ((ch, cl), s2)"
    by simp
  with False le show ?thesis
    by (simp add: process_energy_def Let_def rp [symmetric] evq [symmetric])
qed

lemmas inverter_eval =
  process_energy_def field_defs mk_inverter_def idle_battery_def
  lossy_battery_def efficient_battery_def Let_def

subsection \<open>Energy non-negativity\<close>

text \<open>
  Claim C1 says that all four fields of the result are \<open>\<ge> 0\<close> for every
  generation and consumption \<open>\<ge> 0\<close>, every battery whose calls apply between 0
  and the request with losses \<open>\<ge> 0\<close>, and every predictor with a ratio in
  \<open>[0, 1]\<close>.  The code subtracts the charge losses from the surplus on top of
  the charged energy (line 105), so a battery inside that contract that stores
  the whole request and reports a loss makes \<open>grid_export\<close> negative: with
  generation 2000, consumption 1000, ratio 1 and a charge answer
  \<open>(1000, 100)\<close> the export is \<open>-100\<close>.
\<close>

theorem energy_non_negative_counterexample:
  "(0::real) \<le> 2000 \<and> (0::real) \<le> 1000
   \<and> 0 < max_power_wh (mk_inverter 10000 1 lossy_battery)
   \<and> battery_in_contract (akku (mk_inverter 10000 1 lossy_battery))
   \<and> predictor_in_contract (calculate_self_consumption (mk_inverter 10000 1 lossy_battery))
   \<and> grid_export_of (process_energy (mk_inverter 10000 1 lossy_battery) [] 2000 1000 0) = - 100
   \<and> grid_export_of (process_energy (mk_inverter 10000 1 lossy_battery) [] 2000 1000 0) < 0"
proof -
  have "battery_in_contract (akku (mk_inverter 10000 1 lossy_battery))"
    using lossy_in_contract by (simp add: mk_inverter_def)
  moreover have
    "predictor_in_contract (calculate_self_consumption (mk_inverter 10000 1 lossy_battery))"
    by (simp add: const_predictor_in_contract)
  moreover have
    "grid_export_of (process_energy (mk_inverter 10000 1 lossy_battery) [] 2000 1000 0) = - 100"
    by (simp add: inverter_eval)
  ultimately show ?thesis by (simp add: mk_inverter_def)
qed

text \<open>
  Claim C1 as amended: for every generation \<open>\<ge> 0\<close>, consumption \<open>\<ge> 0\<close> and hour,
  with \<open>max_power_wh > 0\<close>, for every predictor with a ratio in \<open>[0, 1]\<close> and
  every battery whose calls apply between 0 and the request with losses
  \<open>\<ge> 0\<close>, the fields \<open>grid_import\<close>, \<open>losses\<close> and \<open>self_consumption\<close> of the
  result of \<open>process_energy\<close> are \<open>\<ge> 0\<close>; \<open>grid_export\<close> is \<open>\<ge> 0\<close> as well for
  every such battery whose charge call keeps stored energy plus losses within
  the request.
\<close>

theorem energy_non_negative:
  assumes g: "0 \<le> generation" and c: "0 \<le> consumption" and mp: "0 < max_power_wh self"
    and bat: "battery_in_contract (akku self)"
    and pred: "predictor_in_contract (calculate_self_consumption self)"
  shows "0 \<le> grid_import_of (process_energy self s generation consumption hour)
       \<and> 0 \<le> losses_of (process_energy self s generation consumption hour)
       \<and> 0 \<le> self_consumption_of (process_energy self s generation consumption hour)
       \<and> (charge_within_request (akku self)
            \<longrightarrow> 0 \<le> grid_export_of (process_energy self s generation consumption hour))"
proof -
  let ?mp = "max_power_wh self"
  have dis: "op_in_contract (discharge_energy (akku self))"
    and cha: "op_in_contract (charge_energy (akku self))"
    using bat by (simp_all add: battery_in_contract_def)
  consider (saturated) "consumption \<le> generation" "?mp < consumption"
    | (surplus) "consumption \<le> generation" "consumption \<le> ?mp"
    | (deficit) "generation < consumption"
    by linarith
  then show ?thesis
  proof cases
    case saturated
    then show ?thesis using mp by (simp add: process_energy_def field_defs)
  next
    case deficit
    obtain bd dl s1 where d: "discharge_energy (akku self) s
        (min (consumption - generation) (max (?mp - generation) 0)) hour = ((bd, dl), s1)"
      by (metis prod.exhaust)
    have req: "0 \<le> min (consumption - generation) (max (?mp - generation) 0)"
      using deficit by simp
    from op_in_contractD [OF dis req d]
    have "0 \<le> bd" "bd \<le> consumption - generation" "0 \<le> dl" by simp_all
    then show ?thesis using deficit g d
      by (simp add: process_energy_def field_defs)
  next
    case surplus
    define scr where "scr = calculate_self_consumption self consumption generation"
    define rp where "rp = (generation - consumption) * scr"
    define evq where "evq = (generation - consumption) * (1 - scr)"
    have scr: "0 \<le> scr" "scr \<le> 1"
      using pred by (simp_all add: predictor_in_contract_def scr_def)
    have rp0: "0 \<le> rp" and evq0: "0 \<le> evq"
      using surplus scr by (simp_all add: rp_def evq_def)
    obtain fb dl s1 where d: "discharge_energy (akku self) s evq hour = ((fb, dl), s1)"
      by (metis prod.exhaust)
    obtain ch cl s2 where
      ce: "charge_energy (akku self) (if 0 < evq then s1 else s) rp hour = ((ch, cl), s2)"
      by (metis prod.exhaust)
    from op_in_contractD [OF dis evq0 d]
    have fb: "0 \<le> fb" "fb \<le> evq" "0 \<le> dl" by simp_all
    from op_in_contractD [OF cha rp0 ce]
    have ch: "0 \<le> ch" "ch \<le> rp" "0 \<le> cl" by simp_all
    have tot: "ch + cl \<le> rp" if "charge_within_request (akku self)"
      using charge_within_requestD [OF that rp0 ce] .
    note u = process_energy_surplus
      [OF surplus rp_def [unfolded scr_def] evq_def [unfolded scr_def] d ce]
    show ?thesis
      unfolding u using surplus fb ch tot c
      by (auto simp: field_defs)
  qed
qed

theorem energy_non_negative_witness:
  "(0::real) \<le> 8000 \<and> (0::real) \<le> 3000
   \<and> 0 < max_power_wh (mk_inverter 10000 (1/2) efficient_battery)
   \<and> battery_in_contract (akku (mk_inverter 10000 (1/2) efficient_battery))
   \<and> charge_within_request (akku (mk_inverter 10000 (1/2) efficient_battery))
   \<and> predictor_in_contract (calculate_self_consumption (mk_inverter 10000 (1/2) efficient_battery))
   \<and> process_energy (mk_inverter 10000 (1/2) efficient_battery) [] 8000 3000 12
       = ((0, 250, 500, 5250), [Charge 2500 12, Discharge 2500 12])
   \<and> 0 \<le> grid_export_of (process_energy (mk_inverter 10000 (1/2) efficient_battery) [] 8000 3000 12)
   \<and> 0 \<le> grid_import_of (process_energy (mk_inverter 10000 (1/2) efficient_battery) [] 8000 3000 12)
   \<and> 0 \<le> losses_of (process_energy (mk_inverter 10000 (1/2) efficient_battery) [] 8000 3000 12)
   \<and> 0 \<le> self_consumption_of
             (process_energy (mk_inverter 10000 (1/2) efficient_battery) [] 8000 3000 12)"
proof -
  let ?I = "mk_inverter 10000 (1/2) efficient_battery"
  have h1: "(0::real) \<le> 8000" and h2: "(0::real) \<le> 3000" by simp_all
  have h3: "0 < max_power_wh ?I" by (simp add: mk_inverter_def)
  have h4: "battery_in_contract (akku ?I)"
    using efficient_in_contract by (simp add: mk_inverter_def)
  have h5: "charge_within_request (akku ?I)"
    using efficient_within_request by (simp add: mk_inverter_def)
  have h6: "predictor_in_contract (calculate_self_consumption ?I)"
    by (simp add: const_predictor_in_contract)
  have v: "process_energy ?I [] 8000 3000 12
             = ((0, 250, 500, 5250), [Charge 2500 12, Discharge 2500 12])"
    by (simp add: inverter_eval)
  show ?thesis
    using energy_non_negative [OF h1 h2 h3 h4 h6, of "[]" 12] h1 h2 h3 h4 h5 h6 v
    by simp
qed

subsection \<open>Saturation branch\<close>

text \<open>
  Claim C2: if \<open>consumption > max_power_wh\<close> and \<open>generation \<ge> consumption\<close>, then
  \<open>process_energy\<close> returns \<open>grid_export = 0\<close>, \<open>self_consumption = max_power_wh\<close>,
  \<open>grid_import = consumption - max_power_wh\<close> and
  \<open>losses = generation - max_power_wh\<close>.  The scenario of the claim
  (consumption 12000, max_power_wh 10000, generation 15000) is the witness.
\<close>

theorem saturation_branch:
  assumes "consumption > max_power_wh self" and "generation \<ge> consumption"
  shows "grid_export_of (process_energy self s generation consumption hour) = 0
       \<and> self_consumption_of (process_energy self s generation consumption hour)
           = max_power_wh self
       \<and> grid_import_of (process_energy self s generation consumption hour)
           = consumption - max_power_wh self
       \<and> losses_of (process_energy self s generation consumption hour)
           = generation - max_power_wh self"
  using assms by (simp add: process_energy_def field_defs)

theorem saturation_branch_witness:
  "12000 > max_power_wh (mk_inverter 10000 (1/2) idle_battery) \<and> (15000::real) \<ge> 12000
   \<and> losses_of (process_energy (mk_inverter 10000 (1/2) idle_battery) [] 15000 12000 7) = 5000
   \<and> grid_import_of (process_energy (mk_inverter 10000 (1/2) idle_battery) [] 15000 12000 7) = 2000
   \<and> self_consumption_of (process_energy (mk_inverter 10000 (1/2) idle_battery) [] 15000 12000 7)
       = 10000
   \<and> grid_export_of (process_energy (mk_inverter 10000 (1/2) idle_battery) [] 15000 12000 7) = 0"
proof -
  have h1: "12000 > max_power_wh (mk_inverter 10000 (1/2) idle_battery)"
    by (simp add: mk_inverter_def)
  have h2: "(15000::real) \<ge> 12000" by simp
  have mp: "max_power_wh (mk_inverter 10000 (1/2) idle_battery) = 10000"
    by (simp add: mk_inverter_def)
  show ?thesis
    using h1 h2 saturation_branch [OF h1 h2, of "[]" 7] by (simp add: mp)
qed

subsection \<open>Deficit branch\<close>

lemma process_energy_rounded_exact:
  "process_energy_rounded (\<lambda>x. x) self s generation consumption hour
     = process_energy self s generation consumption hour"
  by (simp add: process_energy_rounded_def process_energy_def)

text \<open>
  \<open>fl64\<close> rounds every real whose absolute value lies in the normal range of
  the doubles with relative error at most \<open>2^-53\<close>.
\<close>

lemma pow2_powi: "pow2 e = 2 powi e"
  by (simp add: pow2_def power_int_def field_simps)

lemma round_half_even_error: "\<bar>of_int (round_half_even r) - r\<bar> \<le> 1 / 2"
proof -
  have "of_int \<lfloor>r\<rfloor> \<le> r" "r < of_int \<lfloor>r\<rfloor> + 1" by linarith+
  then show ?thesis
    by (auto simp: round_half_even_def Let_def)
qed

lemma binary_exponent_bounds:
  assumes "2 powi (- int n) \<le> x" and "x < 2 powi (int n + 1)"
  shows "2 powi (binary_exponent n x) \<le> x \<and> x < 2 powi (binary_exponent n x + 1)"
  using assms
proof (induction n arbitrary: x)
  case 0
  then show ?case by simp
next
  case (Suc n)
  have up: "\<And>k::int. (2::real) powi (k + 1) = 2 * 2 powi k"
    by (simp add: power_int_add)
  have low: "(2::real) powi (- int n) \<le> 1"
    by (simp add: power_int_minus field_simps)
  have high: "(2::real) \<le> 2 powi (int n + 1)"
    using up [of "int n"] by simp
  consider (big) "2 \<le> x" | (small) "x < 1" | (mid) "1 \<le> x" "x < 2" by linarith
  then show ?case
  proof cases
    case big
    have "2 powi (- int n) \<le> x / 2" using low big by linarith
    moreover have "x / 2 < 2 powi (int n + 1)"
      using Suc.prems(2) up [of "int n + 1"] by (simp add: add.commute)
    ultimately have ih: "2 powi (binary_exponent n (x / 2)) \<le> x / 2"
      "x / 2 < 2 powi (binary_exponent n (x / 2) + 1)"
      using Suc.IH by blast+
    show ?thesis
      using big ih up [of "binary_exponent n (x / 2)"] up [of "binary_exponent n (x / 2) + 1"]
      by simp
  next
    case small
    have "(2::real) powi (- int n) = 2 * 2 powi (- int (Suc n))"
      using up [of "- int (Suc n)"] by simp
    then have "2 powi (- int n) \<le> x * 2" using Suc.prems(1) by linarith
    moreover have "x * 2 < 2 powi (int n + 1)" using small high by linarith
    ultimately have ih: "2 powi (binary_exponent n (x * 2)) \<le> x * 2"
      "x * 2 < 2 powi (binary_exponent n (x * 2) + 1)"
      using Suc.IH by blast+
    show ?thesis
      using small ih up [of "binary_exponent n (x * 2) - 1"] up [of "binary_exponent n (x * 2)"]
      by simp
  next
    case mid
    then show ?thesis by simp
  qed
qed

lemma fl64_relative_error:
  assumes lo: "pow2 (- 1022) \<le> \<bar>x\<bar>" and hi: "\<bar>x\<bar> < pow2 1101"
  shows "rounds_within fl64 (1 / 2 ^ 53) x"
proof -
  define e where "e = binary_exponent 1100 \<bar>x\<bar>"
  define q where "q = (2::real) powi (e - 52)"
  define m where "m = round_half_even (\<bar>x\<bar> / q)"
  have lo': "(2::real) powi (- 1022) \<le> \<bar>x\<bar>" and hi': "\<bar>x\<bar> < 2 powi 1101"
    using lo hi unfolding pow2_powi by blast+
  have "0 < (2::real) powi (- 1022)" by (rule zero_less_power_int) simp
  with lo' have x0: "x \<noteq> 0" by auto
  have "(2::real) powi (- int 1100) \<le> 2 powi (- 1022)"
    by (rule power_int_increasing) simp_all
  with lo' have b1: "2 powi (- int 1100) \<le> \<bar>x\<bar>" by linarith
  have "int 1100 + 1 = 1101" by simp
  with hi' have b2: "\<bar>x\<bar> < 2 powi (int 1100 + 1)" by (simp only:)
  from binary_exponent_bounds [OF b1 b2]
  have eb: "2 powi e \<le> \<bar>x\<bar>" "\<bar>x\<bar> < 2 powi (e + 1)"
    unfolding e_def by blast+
  have lt: "(2::real) powi (- 1022) < 2 powi (e + 1)" using lo' eb(2) by linarith
  have "- 1022 < e + 1"
  proof (rule ccontr)
    assume "\<not> - 1022 < e + 1"
    then have "e + 1 \<le> - 1022" by simp
    then have "(2::real) powi (e + 1) \<le> 2 powi (- 1022)"
      by (rule power_int_increasing) simp
    with lt show False by linarith
  qed
  then have emax: "max e (- 1022) = e" by simp
  have qpos: "0 < q" unfolding q_def by (rule zero_less_power_int) simp
  have fl: "fl64 x = sgn x * (of_int m * q)"
    using x0 unfolding fl64_def Let_def e_def [symmetric] emax pow2_powi q_def [symmetric]
      m_def [symmetric] by simp
  have sx: "x = sgn x * \<bar>x\<bar>" by (simp add: sgn_mult_abs)
  have "fl64 x - x = sgn x * (of_int m * q - \<bar>x\<bar>)"
    unfolding fl using sx by (simp add: algebra_simps)
  then have "\<bar>fl64 x - x\<bar> = \<bar>sgn x\<bar> * \<bar>of_int m * q - \<bar>x\<bar>\<bar>"
    by (simp only: abs_mult)
  also have "\<dots> = \<bar>of_int m * q - \<bar>x\<bar>\<bar>"
    using x0 by (simp add: abs_sgn_eq)
  also have "\<dots> = q * \<bar>of_int m - \<bar>x\<bar> / q\<bar>"
  proof -
    have "of_int m * q - \<bar>x\<bar> = q * (of_int m - \<bar>x\<bar> / q)"
      using qpos by (simp add: field_simps)
    then show ?thesis using qpos by (simp add: abs_mult)
  qed
  also have "\<dots> \<le> q * (1 / 2)"
    using round_half_even_error [of "\<bar>x\<bar> / q"] qpos
    unfolding m_def by (intro mult_left_mono) simp_all
  also have "q * (1 / 2) = 1 / 2 ^ 53 * 2 powi e"
  proof -
    have "q = 2 powi e / 2 powi 52"
      unfolding q_def by (rule power_int_diff) simp
    then show ?thesis by simp
  qed
  also have "\<dots> \<le> 1 / 2 ^ 53 * \<bar>x\<bar>"
    using eb(1) by (intro mult_left_mono) simp_all
  finally show ?thesis by (simp add: rounds_within_def)
qed

lemma double_values:
  "double_0_2 = 3602879701896397 / 18014398509481984"
  "double_0_7 = 3152519739159347 / 4503599627370496"
  "double_0_9 = 8106479329266893 / 9007199254740992"
  by code_simp+

lemma fl64_one_tenth_plus_two_tenths:
  "fl64 (fl64 (1/10) + double_0_2) = 1351079888211149 / 4503599627370496"
  by code_simp

lemma deficit_eval:
  "process_energy_rounded fl64 (mk_inverter 10000 (1/2) idle_battery) [] double_0_2 double_0_9 0
     = ((0, double_0_7, 0, double_0_2), [Discharge double_0_7 0])"
  by code_simp

lemma double_sum:
  "double_0_2 + double_0_7 = double_0_9 - 1 / 18014398509481984"
  by (simp add: double_values)

lemma double_sum_rounded:
  "fl64 (double_0_2 + double_0_7) = double_0_9 - 1 / 9007199254740992"
  by code_simp

text \<open>
  Claim C3 says that for every input with \<open>generation < consumption\<close> and every
  discharge answer between 0 and the request, \<open>process_energy\<close> returns
  \<open>grid_export = 0\<close>, the returned \<open>self_consumption\<close> plus \<open>grid_import\<close>
  equals the consumption exactly, and the losses are the discharge losses.
  The shortfall, the import and the self consumption are results of float
  operations (lines 121, 131 and 132), each rounded to a double.  With
  generation 0.2, consumption 0.9 and a battery that applies nothing, the
  difference of the two doubles lies halfway between two doubles and is
  rounded to the double 0.7: the import is 0.7, the self consumption 0.2, and
  their sum is below the double 0.9, by \<open>2^-54\<close> as an exact sum and by
  \<open>2^-53\<close> as a float sum.
\<close>

theorem deficit_balance_counterexample:
  "double_0_2 = 3602879701896397 / 18014398509481984
   \<and> double_0_9 = 8106479329266893 / 9007199254740992
   \<and> double_0_2 < double_0_9
   \<and> battery_in_contract (akku (mk_inverter 10000 (1/2) idle_battery))
   \<and> grid_import_of (process_energy_rounded fl64 (mk_inverter 10000 (1/2) idle_battery) []
         double_0_2 double_0_9 0) = double_0_7
   \<and> self_consumption_of (process_energy_rounded fl64 (mk_inverter 10000 (1/2) idle_battery) []
         double_0_2 double_0_9 0) = double_0_2
   \<and> self_consumption_of (process_energy_rounded fl64 (mk_inverter 10000 (1/2) idle_battery) []
         double_0_2 double_0_9 0)
       + grid_import_of (process_energy_rounded fl64 (mk_inverter 10000 (1/2) idle_battery) []
         double_0_2 double_0_9 0)
       = double_0_9 - 1 / 18014398509481984
   \<and> fl64 (self_consumption_of (process_energy_rounded fl64 (mk_inverter 10000 (1/2) idle_battery) []
         double_0_2 double_0_9 0)
       + grid_import_of (process_energy_rounded fl64 (mk_inverter 10000 (1/2) idle_battery) []
         double_0_2 double_0_9 0))
       = double_0_9 - 1 / 9007199254740992
   \<and> self_consumption_of (process_energy_rounded fl64 (mk_inverter 10000 (1/2) idle_battery) []
         double_0_2 double_0_9 0)
       + grid_import_of (process_energy_rounded fl64 (mk_inverter 10000 (1/2) idle_battery) []
         double_0_2 double_0_9 0)
       \<noteq> double_0_9"
proof -
  let ?r = "process_energy_rounded fl64 (mk_inverter 10000 (1/2) idle_battery) []
              double_0_2 double_0_9 0"
  have lt: "double_0_2 < double_0_9" by (simp add: double_values)
  have bat: "battery_in_contract (akku (mk_inverter 10000 (1/2) idle_battery))"
    using idle_in_contract by (simp add: mk_inverter_def)
  have gi: "grid_import_of ?r = double_0_7"
    and sc: "self_consumption_of ?r = double_0_2"
    unfolding deficit_eval by (simp_all add: field_defs)
  have exact: "self_consumption_of ?r + grid_import_of ?r = double_0_9 - 1 / 18014398509481984"
    by (simp only: gi sc double_sum)
  have rounded: "fl64 (self_consumption_of ?r + grid_import_of ?r)
                   = double_0_9 - 1 / 9007199254740992"
    by (simp only: gi sc double_sum_rounded)
  have neq: "self_consumption_of ?r + grid_import_of ?r \<noteq> double_0_9"
    unfolding exact by simp
  from double_values(1) double_values(3) lt bat gi sc exact rounded neq
  show ?thesis by blast
qed

text \<open>
  Claim C3 as amended: for every input with \<open>generation < consumption\<close> and
  every answer of the battery, \<open>process_energy\<close> returns \<open>grid_export = 0\<close> and
  losses that are the float sum of 0.0 and the discharge losses the battery
  reports; the returned \<open>self_consumption\<close> plus \<open>grid_import\<close> equals the
  consumption up to the rounding of the three float operations behind them,
  \<open>consumption - generation\<close>, \<open>shortfall - battery_discharge\<close> and
  \<open>generation + battery_discharge\<close>: where each is rounded with relative
  error at most \<open>u\<close>, the sum differs from the consumption by at most \<open>u\<close>
  times the sum of the absolute values of the three exact results, and
  equals it where the three operations are exact.  For doubles in the normal
  range \<open>u\<close> is \<open>2^-53\<close>, by \<open>fl64_relative_error\<close>.
\<close>

theorem deficit_branch_rounded:
  assumes lt: "generation < consumption"
    and d: "discharge_energy (akku self) s
              (min (rnd (consumption - generation)) (max (rnd (max_power_wh self - generation)) 0))
              hour = ((battery_discharge, discharge_losses), s1)"
    and e1: "rounds_within rnd u (consumption - generation)"
    and e2: "rounds_within rnd u (rnd (consumption - generation) - battery_discharge)"
    and e3: "rounds_within rnd u (generation + battery_discharge)"
  shows "grid_export_of (process_energy_rounded rnd self s generation consumption hour) = 0
       \<and> losses_of (process_energy_rounded rnd self s generation consumption hour)
           = rnd (0 + discharge_losses)
       \<and> \<bar>self_consumption_of (process_energy_rounded rnd self s generation consumption hour)
            + grid_import_of (process_energy_rounded rnd self s generation consumption hour)
            - consumption\<bar>
           \<le> u * (\<bar>consumption - generation\<bar>
                    + \<bar>rnd (consumption - generation) - battery_discharge\<bar>
                    + \<bar>generation + battery_discharge\<bar>)
       \<and> (u = 0 \<longrightarrow>
            self_consumption_of (process_energy_rounded rnd self s generation consumption hour)
            + grid_import_of (process_energy_rounded rnd self s generation consumption hour)
            = consumption)"
proof -
  let ?r = "process_energy_rounded rnd self s generation consumption hour"
  let ?sf = "rnd (consumption - generation)"
  have r: "?r = ((0, rnd (?sf - battery_discharge), rnd (0 + discharge_losses),
                  rnd (generation + battery_discharge)), s1)"
    using lt d by (simp add: process_energy_rounded_def)
  have a1: "\<bar>?sf - (consumption - generation)\<bar> \<le> u * \<bar>consumption - generation\<bar>"
    and a2: "\<bar>rnd (?sf - battery_discharge) - (?sf - battery_discharge)\<bar>
               \<le> u * \<bar>?sf - battery_discharge\<bar>"
    and a3: "\<bar>rnd (generation + battery_discharge) - (generation + battery_discharge)\<bar>
               \<le> u * \<bar>generation + battery_discharge\<bar>"
    using e1 e2 e3 by (simp_all add: rounds_within_def)
  have split: "rnd (generation + battery_discharge) + rnd (?sf - battery_discharge) - consumption
      = (rnd (generation + battery_discharge) - (generation + battery_discharge))
        + (rnd (?sf - battery_discharge) - (?sf - battery_discharge))
        + (?sf - (consumption - generation))"
    by simp
  have "\<bar>rnd (generation + battery_discharge) + rnd (?sf - battery_discharge) - consumption\<bar>
      \<le> u * \<bar>generation + battery_discharge\<bar> + u * \<bar>?sf - battery_discharge\<bar>
        + u * \<bar>consumption - generation\<bar>"
    unfolding split using a1 a2 a3 by linarith
  then have bound:
    "\<bar>rnd (generation + battery_discharge) + rnd (?sf - battery_discharge) - consumption\<bar>
      \<le> u * (\<bar>consumption - generation\<bar> + \<bar>?sf - battery_discharge\<bar>
               + \<bar>generation + battery_discharge\<bar>)"
    by (simp add: algebra_simps)
  have exact: "rnd (generation + battery_discharge) + rnd (?sf - battery_discharge) = consumption"
    if "u = 0"
    using bound that by simp
  show ?thesis
    unfolding r using bound exact by (simp add: field_defs)
qed

lemma witness_discharge:
  "discharge_energy (akku (mk_inverter 10000 (1/2) lossy_battery)) []
     (min (fl64 (double_7569_2 - double_2542_1))
          (max (fl64 (max_power_wh (mk_inverter 10000 (1/2) lossy_battery) - double_2542_1)) 0))
     6 = ((double_5027_1, 100), [Discharge double_5027_1 6])"
  by code_simp

lemma witness_rounds:
  "rounds_within fl64 (1 / 2 ^ 53) (double_7569_2 - double_2542_1)"
  "rounds_within fl64 (1 / 2 ^ 53) (fl64 (double_7569_2 - double_2542_1) - double_5027_1)"
  "rounds_within fl64 (1 / 2 ^ 53) (double_2542_1 + double_5027_1)"
  by code_simp+

lemma witness_eval:
  "process_energy_rounded fl64 (mk_inverter 10000 (1/2) lossy_battery) []
       double_2542_1 double_7569_2 6
     = ((0, 0, 100, double_7569_2 + 1 / 2 ^ 40), [Discharge double_5027_1 6])"
  by code_simp

theorem deficit_branch_rounded_witness:
  "double_2542_1 < double_7569_2
   \<and> rounds_within fl64 (1 / 2 ^ 53) (double_7569_2 - double_2542_1)
   \<and> rounds_within fl64 (1 / 2 ^ 53) (fl64 (double_7569_2 - double_2542_1) - double_5027_1)
   \<and> rounds_within fl64 (1 / 2 ^ 53) (double_2542_1 + double_5027_1)
   \<and> process_energy_rounded fl64 (mk_inverter 10000 (1/2) lossy_battery) []
         double_2542_1 double_7569_2 6
       = ((0, 0, 100, double_7569_2 + 1 / 2 ^ 40), [Discharge double_5027_1 6])
   \<and> grid_export_of (process_energy_rounded fl64 (mk_inverter 10000 (1/2) lossy_battery) []
         double_2542_1 double_7569_2 6) = 0
   \<and> losses_of (process_energy_rounded fl64 (mk_inverter 10000 (1/2) lossy_battery) []
         double_2542_1 double_7569_2 6) = fl64 (0 + 100)
   \<and> \<bar>self_consumption_of (process_energy_rounded fl64 (mk_inverter 10000 (1/2) lossy_battery) []
         double_2542_1 double_7569_2 6)
       + grid_import_of (process_energy_rounded fl64 (mk_inverter 10000 (1/2) lossy_battery) []
         double_2542_1 double_7569_2 6)
       - double_7569_2\<bar>
       \<le> 1 / 2 ^ 53 * (\<bar>double_7569_2 - double_2542_1\<bar>
              + \<bar>fl64 (double_7569_2 - double_2542_1) - double_5027_1\<bar>
              + \<bar>double_2542_1 + double_5027_1\<bar>)"
proof -
  have lt: "double_2542_1 < double_7569_2" by code_simp
  from deficit_branch_rounded [OF lt witness_discharge witness_rounds]
  show ?thesis
    using lt witness_rounds witness_eval by blast
qed

subsection \<open>Capacity clamp\<close>

text \<open>
  Claim C4: for every input with \<open>generation \<ge> consumption\<close> and
  \<open>consumption \<le> max_power_wh\<close>, whatever the battery and the predictor answer,
  the \<open>grid_export\<close> returned by \<open>process_energy\<close> is at most
  \<open>max_power_wh - consumption\<close>; and where the surplus left after charging is
  more than that, the export is exactly \<open>max_power_wh - consumption\<close> and the
  rest of the surplus is added to the losses, next to the losses of the two
  battery calls.
\<close>

theorem capacity_clamp:
  assumes "generation \<ge> consumption" and "consumption \<le> max_power_wh self"
  shows "grid_export_of (process_energy self s generation consumption hour)
           \<le> max_power_wh self - consumption
       \<and> (\<forall>rp evq fb dl s1 ch cl s2.
            rp = (generation - consumption) * calculate_self_consumption self consumption generation
            \<and> evq = (generation - consumption)
                      * (1 - calculate_self_consumption self consumption generation)
            \<and> discharge_energy (akku self) s evq hour = ((fb, dl), s1)
            \<and> charge_energy (akku self) (if 0 < evq then s1 else s) rp hour = ((ch, cl), s2)
            \<and> 0 < rp \<and> max_power_wh self - consumption < rp - (ch + cl)
            \<longrightarrow> grid_export_of (process_energy self s generation consumption hour)
                  = max_power_wh self - consumption
                \<and> losses_of (process_energy self s generation consumption hour)
                  = (if 0 < evq then dl else 0)
                    + (rp - (ch + cl) - (max_power_wh self - consumption)) + cl)"
proof (intro conjI allI impI)
  show "grid_export_of (process_energy self s generation consumption hour)
           \<le> max_power_wh self - consumption"
    using assms by (simp add: process_energy_def field_defs Let_def split: prod.splits)
next
  fix rp evq fb dl s1 ch cl s2
  assume h: "rp = (generation - consumption) * calculate_self_consumption self consumption generation
            \<and> evq = (generation - consumption)
                      * (1 - calculate_self_consumption self consumption generation)
            \<and> discharge_energy (akku self) s evq hour = ((fb, dl), s1)
            \<and> charge_energy (akku self) (if 0 < evq then s1 else s) rp hour = ((ch, cl), s2)
            \<and> 0 < rp \<and> max_power_wh self - consumption < rp - (ch + cl)"
  then have u: "process_energy self s generation consumption hour =
      (let (from_battery, losses1, grid_import, t1) =
             (if 0 < evq then (fb, dl, (if 0 < evq - fb then evq - fb else 0), s1)
              else (0, 0, 0, s));
           (grid_export, losses2, t2) =
             (if 0 < rp then
                (if max_power_wh self - consumption < rp - (ch + cl)
                 then (max_power_wh self - consumption,
                       losses1 + (rp - (ch + cl) - (max_power_wh self - consumption)) + cl, s2)
                 else (rp - (ch + cl), losses1 + cl, s2))
              else (0, losses1, t1))
       in ((grid_export, grid_import, losses2, consumption + from_battery), t2))"
    using process_energy_surplus [OF assms(1) assms(2), of rp evq s hour fb dl s1 ch cl s2]
    by blast
  show "grid_export_of (process_energy self s generation consumption hour)
          = max_power_wh self - consumption"
    unfolding u using h by (simp add: field_defs)
  show "losses_of (process_energy self s generation consumption hour)
          = (if 0 < evq then dl else 0)
            + (rp - (ch + cl) - (max_power_wh self - consumption)) + cl"
    unfolding u using h by (simp add: field_defs)
qed

theorem capacity_clamp_witness:
  "(12000::real) \<ge> 3000 \<and> 3000 \<le> max_power_wh (mk_inverter 10000 1 idle_battery)
   \<and> process_energy (mk_inverter 10000 1 idle_battery) [] 12000 3000 9
       = ((7000, 0, 2000, 3000), [Charge 9000 9])
   \<and> grid_export_of (process_energy (mk_inverter 10000 1 idle_battery) [] 12000 3000 9)
       \<le> max_power_wh (mk_inverter 10000 1 idle_battery) - 3000
   \<and> losses_of (process_energy (mk_inverter 10000 1 idle_battery) [] 12000 3000 9)
       = 0 + (9000 - (0 + 0) - (10000 - 3000)) + 0"
proof -
  let ?I = "mk_inverter 10000 1 idle_battery"
  have h1: "(12000::real) \<ge> 3000" by simp
  have h2: "3000 \<le> max_power_wh ?I" by (simp add: mk_inverter_def)
  have v: "process_energy ?I [] 12000 3000 9 = ((7000, 0, 2000, 3000), [Charge 9000 9])"
    by (simp add: inverter_eval)
  from capacity_clamp [OF h1 h2, of "[]" 9]
  have a: "grid_export_of (process_energy ?I [] 12000 3000 9) \<le> max_power_wh ?I - 3000"
    and b: "\<forall>rp evq fb dl s1 ch cl s2.
            rp = (12000 - 3000) * calculate_self_consumption ?I 3000 12000
            \<and> evq = (12000 - 3000) * (1 - calculate_self_consumption ?I 3000 12000)
            \<and> discharge_energy (akku ?I) [] evq 9 = ((fb, dl), s1)
            \<and> charge_energy (akku ?I) (if 0 < evq then s1 else []) rp 9 = ((ch, cl), s2)
            \<and> 0 < rp \<and> max_power_wh ?I - 3000 < rp - (ch + cl)
            \<longrightarrow> grid_export_of (process_energy ?I [] 12000 3000 9) = max_power_wh ?I - 3000
                \<and> losses_of (process_energy ?I [] 12000 3000 9)
                  = (if 0 < evq then dl else 0) + (rp - (ch + cl) - (max_power_wh ?I - 3000)) + cl"
    by blast+
  have "losses_of (process_energy ?I [] 12000 3000 9)
          = (if 0 < (0::real) then 0 else 0) + (9000 - (0 + 0) - (max_power_wh ?I - 3000)) + 0"
    using b [rule_format, of 9000 0 0 0 "[Discharge 0 9]" 0 0 "[Charge 9000 9]"]
    by (simp add: mk_inverter_def idle_battery_def)
  then have c: "losses_of (process_energy ?I [] 12000 3000 9)
                  = 0 + (9000 - (0 + 0) - (10000 - 3000)) + 0"
    by (simp add: mk_inverter_def)
  show ?thesis using h1 h2 v a c by simp
qed

subsection \<open>Export and import in the same hour\<close>

text \<open>
  Claim C8 says that at most one of \<open>grid_export\<close> and \<open>grid_import\<close> is
  non-zero for every valid input.  In the surplus branch the surplus is split
  by the ratio: the part \<open>(1 - scr)\<close> is asked from the battery and what the
  battery does not supply is imported (lines 87 to 98), the part \<open>scr\<close> is
  offered to the battery and what it does not take is exported (lines 102 to
  112).  With generation 8000, consumption 3000, ratio \<open>1/2\<close> and a battery that
  applies nothing, export and import are both 2500.
\<close>

theorem export_import_exclusive_counterexample:
  "(0::real) \<le> 8000 \<and> (0::real) \<le> 3000
   \<and> 0 < max_power_wh (mk_inverter 10000 (1/2) idle_battery)
   \<and> battery_in_contract (akku (mk_inverter 10000 (1/2) idle_battery))
   \<and> predictor_in_contract (calculate_self_consumption (mk_inverter 10000 (1/2) idle_battery))
   \<and> grid_export_of (process_energy (mk_inverter 10000 (1/2) idle_battery) [] 8000 3000 0) = 2500
   \<and> grid_import_of (process_energy (mk_inverter 10000 (1/2) idle_battery) [] 8000 3000 0) = 2500"
proof -
  have "battery_in_contract (akku (mk_inverter 10000 (1/2) idle_battery))"
    using idle_in_contract by (simp add: mk_inverter_def)
  moreover have
    "predictor_in_contract (calculate_self_consumption (mk_inverter 10000 (1/2) idle_battery))"
    by (simp add: const_predictor_in_contract)
  moreover have
    "process_energy (mk_inverter 10000 (1/2) idle_battery) [] 8000 3000 0
       = ((2500, 2500, 0, 3000), [Charge 2500 0, Discharge 2500 0])"
    by (simp add: inverter_eval)
  ultimately show ?thesis by (simp add: mk_inverter_def field_defs)
qed

text \<open>
  Claim C8 as amended: at most one of \<open>grid_export\<close> and \<open>grid_import\<close> is
  non-zero in the result of \<open>process_energy\<close> unless the hour is a surplus hour
  that the inverter can pass (\<open>generation > consumption\<close>,
  \<open>consumption \<le> max_power_wh\<close>) and the predictor's ratio lies strictly between
  0 and 1.
\<close>

theorem export_import_exclusive:
  assumes "\<not> (consumption < generation \<and> consumption \<le> max_power_wh self
             \<and> 0 < calculate_self_consumption self consumption generation
             \<and> calculate_self_consumption self consumption generation < 1)"
  shows "grid_export_of (process_energy self s generation consumption hour) = 0
       \<or> grid_import_of (process_energy self s generation consumption hour) = 0"
proof -
  let ?mp = "max_power_wh self"
  let ?scr = "calculate_self_consumption self consumption generation"
  consider (saturated) "consumption \<le> generation" "?mp < consumption"
    | (surplus) "consumption \<le> generation" "consumption \<le> ?mp"
    | (deficit) "generation < consumption"
    by linarith
  then show ?thesis
  proof cases
    case saturated
    then show ?thesis by (simp add: process_energy_def field_defs)
  next
    case deficit
    then show ?thesis by (simp add: process_energy_def field_defs Let_def split: prod.splits)
  next
    case surplus
    define rp where "rp = (generation - consumption) * ?scr"
    define evq where "evq = (generation - consumption) * (1 - ?scr)"
    obtain fb dl s1 where d: "discharge_energy (akku self) s evq hour = ((fb, dl), s1)"
      by (metis prod.exhaust)
    obtain ch cl s2 where
      ce: "charge_energy (akku self) (if 0 < evq then s1 else s) rp hour = ((ch, cl), s2)"
      by (metis prod.exhaust)
    note u = process_energy_surplus [OF surplus rp_def evq_def d ce]
    from assms surplus have "generation = consumption \<or> ?scr \<le> 0 \<or> 1 \<le> ?scr"
      by linarith
    then have "\<not> 0 < rp \<or> \<not> 0 < evq"
      using surplus
      by (auto simp: rp_def evq_def zero_less_mult_iff)
    then show ?thesis
      unfolding u by (auto simp: field_defs)
  qed
qed

theorem export_import_exclusive_witness:
  "\<not> ((3000::real) < 8000 \<and> 3000 \<le> max_power_wh (mk_inverter 10000 1 idle_battery)
       \<and> 0 < calculate_self_consumption (mk_inverter 10000 1 idle_battery) 3000 8000
       \<and> calculate_self_consumption (mk_inverter 10000 1 idle_battery) 3000 8000 < 1)
   \<and> process_energy (mk_inverter 10000 1 idle_battery) [] 8000 3000 0
       = ((5000, 0, 0, 3000), [Charge 5000 0])
   \<and> (grid_export_of (process_energy (mk_inverter 10000 1 idle_battery) [] 8000 3000 0) = 0
       \<or> grid_import_of (process_energy (mk_inverter 10000 1 idle_battery) [] 8000 3000 0) = 0)"
proof -
  let ?I = "mk_inverter 10000 1 idle_battery"
  have h: "\<not> ((3000::real) < 8000 \<and> 3000 \<le> max_power_wh ?I
       \<and> 0 < calculate_self_consumption ?I 3000 8000
       \<and> calculate_self_consumption ?I 3000 8000 < 1)"
    by (simp add: mk_inverter_def)
  have v: "process_energy ?I [] 8000 3000 0 = ((5000, 0, 0, 3000), [Charge 5000 0])"
    by (simp add: inverter_eval)
  show ?thesis
    using export_import_exclusive [OF h, of "[]" 0] h v by blast
qed

subsection \<open>Balanced hour\<close>

text \<open>
  Claim C10: for every hour with \<open>generation = consumption\<close> and
  \<open>consumption \<le> max_power_wh\<close>, \<open>process_energy\<close> returns
  \<open>grid_export = 0\<close>, \<open>grid_import = 0\<close>, \<open>losses = 0\<close> and
  \<open>self_consumption = consumption\<close> for every predictor, and leaves the battery
  in the state it had: for every battery, so also for one that records each
  call in its state, which shows that neither \<open>charge_energy\<close> nor
  \<open>discharge_energy\<close> is called.
\<close>

theorem balanced_hour:
  assumes "generation = consumption" and "consumption \<le> max_power_wh self"
  shows "process_energy self s generation consumption hour = ((0, 0, 0, consumption), s)"
  using assms by (simp add: process_energy_def)

theorem balanced_hour_witness:
  "(4000::real) = 4000 \<and> 4000 \<le> max_power_wh (mk_inverter 10000 (1/3) lossy_battery)
   \<and> process_energy (mk_inverter 10000 (1/3) lossy_battery) [] 4000 4000 18
       = ((0, 0, 0, 4000), [])"
proof -
  have h1: "(4000::real) = 4000" by simp
  have h2: "4000 \<le> max_power_wh (mk_inverter 10000 (1/3) lossy_battery)"
    by (simp add: mk_inverter_def)
  show ?thesis
    using balanced_hour [OF h1 h2, of "[]" 18] h1 h2 by simp
qed

section \<open>Properties of the load forecast\<close>

subsection \<open>The first loop adds up residuals and weights\<close>

lemma np_pos_in_range: "0 \<le> i \<Longrightarrow> i < int n \<Longrightarrow> np_pos n i = Inr (nat i)"
  by (simp add: np_pos_def)

lemma hourly_stats_ok:
  assumes "table_shape data" and "in_window ops ce t"
  shows "hourly_stats data (dt_day_of_year ops t - 1) (dt_hour ops t)
           = Inr (fst (data ! nat (dt_day_of_year ops t - 1)) ! nat (dt_hour ops t),
                  snd (data ! nat (dt_day_of_year ops t - 1)) ! nat (dt_hour ops t))"
proof -
  let ?d = "dt_day_of_year ops t - 1"
  have d: "0 \<le> ?d" "?d < int (length data)"
    using assms by (simp_all add: table_shape_def in_window_def)
  then have mem: "data ! nat ?d \<in> set data" by simp
  obtain m sd where row: "data ! nat ?d = (m, sd)" by (cases "data ! nat ?d")
  with mem assms(1) have len: "length m = 24" "length sd = 24"
    by (auto simp: table_shape_def list_all_iff)
  have h: "0 \<le> dt_hour ops t" "dt_hour ops t < 24"
    using assms(2) by (simp_all add: in_window_def)
  show ?thesis
    using d h row len
    by (simp add: hourly_stats_def np_index_def np_pos_in_range)
qed

lemma adjust_step_ok:
  assumes ts: "table_shape data" and iw: "in_window ops ce t" and a24: "arrays_24 arrs"
  shows "adjust_step ops data ce t v arrs =
     Inr (if dt_day_of_week ops t < 5 then
            arrs\<lparr>weekday_adjust := (weekday_adjust arrs)[nat (dt_hour ops t) :=
                     weekday_adjust arrs ! nat (dt_hour ops t)
                       + spec_residual ops data t v * spec_weight ops ce t],
                  weekday_adjust_weight := (weekday_adjust_weight arrs)[nat (dt_hour ops t) :=
                     weekday_adjust_weight arrs ! nat (dt_hour ops t) + spec_weight ops ce t]\<rparr>
          else
            arrs\<lparr>weekend_adjust := (weekend_adjust arrs)[nat (dt_hour ops t) :=
                     weekend_adjust arrs ! nat (dt_hour ops t)
                       + spec_residual ops data t v * spec_weight ops ce t],
                  weekend_adjust_weight := (weekend_adjust_weight arrs)[nat (dt_hour ops t) :=
                     weekend_adjust_weight arrs ! nat (dt_hour ops t) + spec_weight ops ce t]\<rparr>)"
proof -
  have h: "0 \<le> dt_hour ops t" "dt_hour ops t < 24" and days: "0 \<le> dt_days_between ops ce t"
    using iw by (simp_all add: in_window_def)
  have nz: "dt_days_between ops ce t + 1 \<noteq> 0" using days by linarith
  show ?thesis
    using a24 h nz
    by (simp add: adjust_step_def hourly_stats_ok [OF ts iw] np_add_at_def np_pos_in_range
        arrays_24_def spec_residual_def spec_weight_def Let_def)
qed


lemma class_sum_Nil: "class_sum ops weekday h f [] = 0"
  by (simp add: class_sum_def)

lemma class_sum_Cons:
  "class_sum ops weekday h f ((t, v) # samples) =
     (if spec_in_class ops weekday h t then f t v else 0) + class_sum ops weekday h f samples"
  by (simp add: class_sum_def)

lemma adjust_step_entries:
  assumes ts: "table_shape data" and iw: "in_window ops ce t" and a24: "arrays_24 arrs"
  shows "\<exists>arrs1. adjust_step ops data ce t v arrs = Inr arrs1 \<and> arrays_24 arrs1
     \<and> (\<forall>k<24.
          weekday_adjust arrs1 ! k = weekday_adjust arrs ! k
            + (if spec_in_class ops True k t
               then spec_residual ops data t v * spec_weight ops ce t else 0)
        \<and> weekday_adjust_weight arrs1 ! k = weekday_adjust_weight arrs ! k
            + (if spec_in_class ops True k t then spec_weight ops ce t else 0)
        \<and> weekend_adjust arrs1 ! k = weekend_adjust arrs ! k
            + (if spec_in_class ops False k t
               then spec_residual ops data t v * spec_weight ops ce t else 0)
        \<and> weekend_adjust_weight arrs1 ! k = weekend_adjust_weight arrs ! k
            + (if spec_in_class ops False k t then spec_weight ops ce t else 0))"
proof -
  have h: "0 \<le> dt_hour ops t" "dt_hour ops t < 24"
    using iw by (simp_all add: in_window_def)
  then have hk: "\<And>k. (nat (dt_hour ops t) = k) = (dt_hour ops t = int k)"
    by linarith
  have hn: "nat (dt_hour ops t) < 24" using h by linarith
  show ?thesis
  proof (cases "dt_day_of_week ops t < 5")
    case True
    with a24 hn show ?thesis
      unfolding adjust_step_ok [OF ts iw a24]
      by (simp add: arrays_24_def spec_in_class_def nth_list_update hk)
  next
    case False
    with a24 hn show ?thesis
      unfolding adjust_step_ok [OF ts iw a24]
      by (simp add: arrays_24_def spec_in_class_def nth_list_update hk)
  qed
qed

lemma adjust_loop_ok:
  assumes ts: "table_shape data"
    and iw: "\<forall>t \<in> set (window_times ops t0 (length arr)). in_window ops ce t"
    and a24: "arrays_24 arrs"
  shows "\<exists>arrs'. adjust_loop ops data ce arr t0 arrs = Inr arrs' \<and> arrays_24 arrs'
     \<and> (\<forall>k<24.
          weekday_adjust arrs' ! k = weekday_adjust arrs ! k
            + class_sum ops True k (\<lambda>t v. spec_residual ops data t v * spec_weight ops ce t)
                (window_samples ops t0 arr)
        \<and> weekday_adjust_weight arrs' ! k = weekday_adjust_weight arrs ! k
            + class_sum ops True k (\<lambda>t v. spec_weight ops ce t) (window_samples ops t0 arr)
        \<and> weekend_adjust arrs' ! k = weekend_adjust arrs ! k
            + class_sum ops False k (\<lambda>t v. spec_residual ops data t v * spec_weight ops ce t)
                (window_samples ops t0 arr)
        \<and> weekend_adjust_weight arrs' ! k = weekend_adjust_weight arrs ! k
            + class_sum ops False k (\<lambda>t v. spec_weight ops ce t) (window_samples ops t0 arr))"
  using iw a24
proof (induction arr arbitrary: t0 arrs)
  case Nil
  then show ?case by (simp add: window_samples_def class_sum_Nil)
next
  case (Cons v rest)
  from Cons.prems(1) have now: "in_window ops ce t0"
    and later: "\<forall>t \<in> set (window_times ops (dt_add ops t0 one_hour) (length rest)). in_window ops ce t"
    by simp_all
  from adjust_step_entries [OF ts now Cons.prems(2), of v]
  obtain arrs1 where s1: "adjust_step ops data ce t0 v arrs = Inr arrs1"
    and l1: "arrays_24 arrs1"
    and e1: "\<forall>k<24.
          weekday_adjust arrs1 ! k = weekday_adjust arrs ! k
            + (if spec_in_class ops True k t0
               then spec_residual ops data t0 v * spec_weight ops ce t0 else 0)
        \<and> weekday_adjust_weight arrs1 ! k = weekday_adjust_weight arrs ! k
            + (if spec_in_class ops True k t0 then spec_weight ops ce t0 else 0)
        \<and> weekend_adjust arrs1 ! k = weekend_adjust arrs ! k
            + (if spec_in_class ops False k t0
               then spec_residual ops data t0 v * spec_weight ops ce t0 else 0)
        \<and> weekend_adjust_weight arrs1 ! k = weekend_adjust_weight arrs ! k
            + (if spec_in_class ops False k t0 then spec_weight ops ce t0 else 0)"
    by blast
  from Cons.IH [OF later l1]
  obtain arrs' where s2: "adjust_loop ops data ce rest (dt_add ops t0 one_hour) arrs1 = Inr arrs'"
    and l2: "arrays_24 arrs'"
    and e2: "\<forall>k<24.
          weekday_adjust arrs' ! k = weekday_adjust arrs1 ! k
            + class_sum ops True k (\<lambda>t v. spec_residual ops data t v * spec_weight ops ce t)
                (window_samples ops (dt_add ops t0 one_hour) rest)
        \<and> weekday_adjust_weight arrs' ! k = weekday_adjust_weight arrs1 ! k
            + class_sum ops True k (\<lambda>t v. spec_weight ops ce t)
                (window_samples ops (dt_add ops t0 one_hour) rest)
        \<and> weekend_adjust arrs' ! k = weekend_adjust arrs1 ! k
            + class_sum ops False k (\<lambda>t v. spec_residual ops data t v * spec_weight ops ce t)
                (window_samples ops (dt_add ops t0 one_hour) rest)
        \<and> weekend_adjust_weight arrs' ! k = weekend_adjust_weight arrs1 ! k
            + class_sum ops False k (\<lambda>t v. spec_weight ops ce t)
                (window_samples ops (dt_add ops t0 one_hour) rest)"
    by blast
  have ws: "window_samples ops t0 (v # rest)
              = (t0, v) # window_samples ops (dt_add ops t0 one_hour) rest"
    by (simp add: window_samples_def)
  have "adjust_loop ops data ce (v # rest) t0 arrs = Inr arrs'"
    using s1 s2 by simp
  moreover have "\<forall>k<24.
          weekday_adjust arrs' ! k = weekday_adjust arrs ! k
            + class_sum ops True k (\<lambda>t v. spec_residual ops data t v * spec_weight ops ce t)
                (window_samples ops t0 (v # rest))
        \<and> weekday_adjust_weight arrs' ! k = weekday_adjust_weight arrs ! k
            + class_sum ops True k (\<lambda>t v. spec_weight ops ce t) (window_samples ops t0 (v # rest))
        \<and> weekend_adjust arrs' ! k = weekend_adjust arrs ! k
            + class_sum ops False k (\<lambda>t v. spec_residual ops data t v * spec_weight ops ce t)
                (window_samples ops t0 (v # rest))
        \<and> weekend_adjust_weight arrs' ! k = weekend_adjust_weight arrs ! k
            + class_sum ops False k (\<lambda>t v. spec_weight ops ce t)
                (window_samples ops t0 (v # rest))"
    using e1 e2 unfolding ws class_sum_Cons by (simp add: add.assoc)
  ultimately show ?case using l2 by blast
qed


lemma mean_step_entries:
  assumes "arrays_24 arrs" and "n < 24"
  shows "arrays_24 (mean_step n arrs)"
    and "weekday_adjust_weight (mean_step n arrs) = weekday_adjust_weight arrs"
    and "weekend_adjust_weight (mean_step n arrs) = weekend_adjust_weight arrs"
    and "weekday_adjust (mean_step n arrs) =
           (if weekday_adjust_weight arrs ! n > 0
            then (weekday_adjust arrs)[n := weekday_adjust arrs ! n / weekday_adjust_weight arrs ! n]
            else weekday_adjust arrs)"
    and "weekend_adjust (mean_step n arrs) =
           (if weekend_adjust_weight arrs ! n > 0
            then (weekend_adjust arrs)[n := weekend_adjust arrs ! n / weekend_adjust_weight arrs ! n]
            else weekend_adjust arrs)"
  using assms by (simp_all add: mean_step_def arrays_24_def Let_def)

lemma fold_mean_step:
  assumes a24: "arrays_24 arrs" and n: "n \<le> 24"
  shows "arrays_24 (fold mean_step [0..<n] arrs)
     \<and> weekday_adjust_weight (fold mean_step [0..<n] arrs) = weekday_adjust_weight arrs
     \<and> weekend_adjust_weight (fold mean_step [0..<n] arrs) = weekend_adjust_weight arrs
     \<and> (\<forall>k<24.
          weekday_adjust (fold mean_step [0..<n] arrs) ! k =
            (if k < n \<and> weekday_adjust_weight arrs ! k > 0
             then weekday_adjust arrs ! k / weekday_adjust_weight arrs ! k
             else weekday_adjust arrs ! k)
        \<and> weekend_adjust (fold mean_step [0..<n] arrs) ! k =
            (if k < n \<and> weekend_adjust_weight arrs ! k > 0
             then weekend_adjust arrs ! k / weekend_adjust_weight arrs ! k
             else weekend_adjust arrs ! k))"
  using n
proof (induction n)
  case 0
  then show ?case using a24 by simp
next
  case (Suc n)
  let ?r = "fold mean_step [0..<n] arrs"
  from Suc have n24: "n < 24" and ih: "arrays_24 ?r"
    "weekday_adjust_weight ?r = weekday_adjust_weight arrs"
    "weekend_adjust_weight ?r = weekend_adjust_weight arrs"
    "\<forall>k<24.
          weekday_adjust ?r ! k =
            (if k < n \<and> weekday_adjust_weight arrs ! k > 0
             then weekday_adjust arrs ! k / weekday_adjust_weight arrs ! k
             else weekday_adjust arrs ! k)
        \<and> weekend_adjust ?r ! k =
            (if k < n \<and> weekend_adjust_weight arrs ! k > 0
             then weekend_adjust arrs ! k / weekend_adjust_weight arrs ! k
             else weekend_adjust arrs ! k)"
    by simp_all
  have f: "fold mean_step [0..<Suc n] arrs = mean_step n ?r" by simp
  have len: "length (weekday_adjust ?r) = 24" "length (weekend_adjust ?r) = 24"
    using ih(1) by (simp_all add: arrays_24_def)
  show ?case
    unfolding f
    using mean_step_entries [OF ih(1) n24] ih(2,3,4) n24 len
    by (auto simp: nth_list_update less_Suc_eq)
qed

lemma calculate_mean_entries:
  assumes a24: "arrays_24 arrs" and k: "k < 24"
  shows "weekday_adjust (calculate_mean arrs) ! k =
            (if weekday_adjust_weight arrs ! k > 0
             then weekday_adjust arrs ! k / weekday_adjust_weight arrs ! k
             else weekday_adjust arrs ! k)"
    and "weekend_adjust (calculate_mean arrs) ! k =
            (if weekend_adjust_weight arrs ! k > 0
             then weekend_adjust arrs ! k / weekend_adjust_weight arrs ! k
             else weekend_adjust arrs ! k)"
  using fold_mean_step [OF a24, of 24] k
  by (simp_all add: calculate_mean_def)

lemma calculate_mean_length:
  assumes a24: "arrays_24 arrs"
  shows "length (weekday_adjust (calculate_mean arrs)) = 24"
    and "length (weekend_adjust (calculate_mean arrs)) = 24"
  using fold_mean_step [OF a24, of 24]
  by (simp_all add: calculate_mean_def arrays_24_def)


lemma spec_weight_pos: "in_window ops ce t \<Longrightarrow> 0 < spec_weight ops ce t"
  by (simp add: in_window_def spec_weight_def)

lemma class_sum_weight_sign:
  assumes "\<forall>(t, v) \<in> set samples. in_window ops ce t"
  shows "0 \<le> class_sum ops weekday h (\<lambda>t v. spec_weight ops ce t) samples
     \<and> (class_sum ops weekday h (\<lambda>t v. spec_weight ops ce t) samples = 0
          \<longrightarrow> class_sum ops weekday h f samples = 0)"
  using assms
proof (induction samples)
  case Nil
  then show ?case by (simp add: class_sum_Nil)
next
  case (Cons x samples)
  obtain t v where x: "x = (t, v)" by (cases x)
  from Cons.prems x have "0 < spec_weight ops ce t"
    by (simp add: spec_weight_pos)
  moreover from Cons have
    "0 \<le> class_sum ops weekday h (\<lambda>t v. spec_weight ops ce t) samples"
    "class_sum ops weekday h (\<lambda>t v. spec_weight ops ce t) samples = 0
          \<longrightarrow> class_sum ops weekday h f samples = 0"
    by simp_all
  ultimately show ?case
    unfolding x class_sum_Cons by auto
qed

lemma spec_weighted_mean_class_sum:
  "spec_weighted_mean ops data ce samples weekday h =
     (if class_sum ops weekday h (\<lambda>t v. spec_weight ops ce t) samples = 0 then 0
      else class_sum ops weekday h (\<lambda>t v. spec_residual ops data t v * spec_weight ops ce t) samples
             / class_sum ops weekday h (\<lambda>t v. spec_weight ops ce t) samples)"
  by (simp add: spec_weighted_mean_def class_sum_def Let_def)

lemma np_zeros_24: "arrays_24 np_zeros_arrays"
  by (simp add: arrays_24_def np_zeros_arrays_def)

lemma np_zeros_entries:
  "k < 24 \<Longrightarrow> weekday_adjust np_zeros_arrays ! k = 0 \<and> weekday_adjust_weight np_zeros_arrays ! k = 0
     \<and> weekend_adjust np_zeros_arrays ! k = 0 \<and> weekend_adjust_weight np_zeros_arrays ! k = 0"
  by (simp add: np_zeros_arrays_def)

lemma window_times_hours:
  "set (window_times hours_ops t n) = {t ..< t + int n}"
  by (induction n arbitrary: t) (auto simp: hours_ops_def one_hour_def)

lemma in_window_hours:
  assumes "0 \<le> t" and "t \<le> ce" and "ce < 8784"
  shows "in_window hours_ops ce t"
proof -
  have "0 \<le> t div 24" "t div 24 \<le> 365" "0 \<le> (ce - t) div 24"
    using assms by simp_all
  then show ?thesis
    by (simp add: in_window_def hours_ops_def)
qed

lemma flat_table_shape: "table_shape flat_table"
  by (simp add: table_shape_def flat_table_def list_all_iff)

lemma length_sample_readings: "length sample_readings = 73"
  by (simp add: sample_readings_def)

lemma wm_weekday:
  "spec_weighted_mean hours_ops flat_table 192 (window_samples hours_ops 120 sample_readings) True 0 = 50"
  by code_simp

lemma wm_weekend:
  "spec_weighted_mean hours_ops flat_table 192 (window_samples hours_ops 120 sample_readings) False 0 = 450 / 7"
  by code_simp

lemma wm_other:
  "spec_weighted_mean hours_ops flat_table 192 (window_samples hours_ops 120 sample_readings) True 13 = 0"
  by code_simp


subsection \<open>Weighted mean\<close>

text \<open>
  Claim C5: for every hour \<open>h\<close> of the two 24-hour vectors that
  \<open>_calculate_adjustment\<close> returns, the weekday (resp. weekend) entry is the
  weighted mean \<open>\<Sum>(residual * weight) / \<Sum>(weight)\<close> over the samples of the
  window that fall on hour \<open>h\<close> and on that class, with
  \<open>residual = measured_total - mean(day_of_year - 1, hour)\<close> and
  \<open>weight = 1 / (days between compare_end and the sample + 1)\<close>, and 0 where the
  weight sum is 0.  The window starts seven days before the latest
  measurement, or at the earliest one when that is later; the method returns
  for every table of shape \<open>[366][2][24]\<close> and every query answer whose
  samples lie in the window.
\<close>

theorem weighted_mean_adjustment:
  assumes mx: "max_datetime measurement = Some latest"
    and mn: "min_datetime measurement = Some earliest"
    and cs: "compare_start = (if dt_lt ops (dt_sub ops latest seven_days) earliest then earliest
                              else dt_sub ops latest seven_days)"
    and lt: "load_total measurement compare_start latest one_hour = Inr load_total_array"
    and ts: "table_shape data"
    and iw: "\<forall>t \<in> set (window_times ops compare_start (length load_total_array)).
               in_window ops latest t"
  shows "\<exists>wd we. calculate_adjustment ops measurement data = Inr (wd, we)
     \<and> length wd = 24 \<and> length we = 24
     \<and> (\<forall>h<24.
          wd ! h = spec_weighted_mean ops data latest
                     (window_samples ops compare_start load_total_array) True h
        \<and> we ! h = spec_weighted_mean ops data latest
                     (window_samples ops compare_start load_total_array) False h)"
proof -
  let ?samples = "window_samples ops compare_start load_total_array"
  let ?A = "\<lambda>wk k. class_sum ops wk k
              (\<lambda>t v. spec_residual ops data t v * spec_weight ops latest t) ?samples"
  let ?W = "\<lambda>wk k. class_sum ops wk k (\<lambda>t v. spec_weight ops latest t) ?samples"
  from adjust_loop_ok [OF ts iw np_zeros_24]
  obtain arrs where loop: "adjust_loop ops data latest load_total_array compare_start
                             np_zeros_arrays = Inr arrs"
    and a24: "arrays_24 arrs"
    and ent: "\<forall>k<24.
          weekday_adjust arrs ! k = weekday_adjust np_zeros_arrays ! k + ?A True k
        \<and> weekday_adjust_weight arrs ! k = weekday_adjust_weight np_zeros_arrays ! k + ?W True k
        \<and> weekend_adjust arrs ! k = weekend_adjust np_zeros_arrays ! k + ?A False k
        \<and> weekend_adjust_weight arrs ! k = weekend_adjust_weight np_zeros_arrays ! k + ?W False k"
    by blast
  have res: "calculate_adjustment ops measurement data
               = Inr (weekday_adjust (calculate_mean arrs), weekend_adjust (calculate_mean arrs))"
    using mx mn lt loop by (simp add: calculate_adjustment_def Let_def cs [symmetric])
  have inw: "\<forall>(t, v) \<in> set ?samples. in_window ops latest t"
    using iw by (auto simp: window_samples_def dest: set_zip_leftD)
  have entries: "weekday_adjust (calculate_mean arrs) ! h
                   = spec_weighted_mean ops data latest ?samples True h
               \<and> weekend_adjust (calculate_mean arrs) ! h
                   = spec_weighted_mean ops data latest ?samples False h" if h: "h < 24" for h
  proof -
    from ent h np_zeros_entries [OF h]
    have e: "weekday_adjust arrs ! h = ?A True h" "weekday_adjust_weight arrs ! h = ?W True h"
      "weekend_adjust arrs ! h = ?A False h" "weekend_adjust_weight arrs ! h = ?W False h"
      by simp_all
    from class_sum_weight_sign [OF inw]
    have sgn: "\<And>wk. 0 \<le> ?W wk h" "\<And>wk. ?W wk h = 0 \<longrightarrow> ?A wk h = 0"
      by blast+
    have pos: "\<And>wk. (0 < ?W wk h) = (?W wk h \<noteq> 0)"
      using sgn(1) by (simp add: less_le)
    show ?thesis
      using sgn(2)
      by (simp add: calculate_mean_entries [OF a24 h] e spec_weighted_mean_class_sum pos)
  qed
  show ?thesis
    using res entries calculate_mean_length [OF a24] by simp
qed


theorem weighted_mean_adjustment_witness:
  "max_datetime sample_measurement = Some 192 \<and> min_datetime sample_measurement = Some 120
   \<and> 120 = (if dt_lt hours_ops (dt_sub hours_ops 192 seven_days) 120 then 120
             else dt_sub hours_ops 192 seven_days)
   \<and> load_total sample_measurement 120 192 one_hour = Inr sample_readings
   \<and> table_shape flat_table
   \<and> list_all (in_window hours_ops 192) (window_times hours_ops 120 (length sample_readings))
   \<and> (\<exists>wd we. calculate_adjustment hours_ops sample_measurement flat_table = Inr (wd, we)
         \<and> length wd = 24 \<and> length we = 24
         \<and> wd ! 0 = 50 \<and> we ! 0 = 450 / 7 \<and> wd ! 13 = 0)"
proof -
  have h1: "max_datetime sample_measurement = Some 192"
    and h2: "min_datetime sample_measurement = Some 120"
    by (simp_all add: sample_measurement_def)
  have h3: "120 = (if dt_lt hours_ops (dt_sub hours_ops 192 seven_days) 120 then 120
                   else dt_sub hours_ops 192 seven_days)"
    by (simp add: hours_ops_def seven_days_def)
  have h4: "load_total sample_measurement 120 192 one_hour = Inr sample_readings"
    by code_simp
  have h5: "\<forall>t \<in> set (window_times hours_ops 120 (length sample_readings)).
              in_window hours_ops 192 t"
    by (simp add: window_times_hours length_sample_readings in_window_hours)
  from weighted_mean_adjustment [OF h1 h2 h3 h4 flat_table_shape h5]
  obtain wd we where r: "calculate_adjustment hours_ops sample_measurement flat_table = Inr (wd, we)"
    "length wd = 24" "length we = 24"
    and e: "\<forall>h<24.
          wd ! h = spec_weighted_mean hours_ops flat_table 192
                     (window_samples hours_ops 120 sample_readings) True h
        \<and> we ! h = spec_weighted_mean hours_ops flat_table 192
                     (window_samples hours_ops 120 sample_readings) False h"
    by blast
  from e have "wd ! 0 = 50" "we ! 0 = 450 / 7" "wd ! 13 = 0"
    by (simp_all add: wm_weekday wm_weekend wm_other)
  moreover from h5 have
    "list_all (in_window hours_ops 192) (window_times hours_ops 120 (length sample_readings))"
    by (simp add: list_all_iff)
  ultimately show ?thesis
    using r h1 h2 h3 h4 flat_table_shape by blast
qed

subsection \<open>No measurement\<close>

text \<open>
  Claim C6: if the measurement has no latest datetime, \<open>_calculate_adjustment\<close>
  returns two vectors of 24 zeros.  It does so for every measurement, also one
  whose query \<open>load_total\<close> raises on every call, and for every table: no
  measurement data and no table entry is read.
\<close>

theorem no_measurement_zero_adjustment:
  assumes "max_datetime measurement = None"
  shows "calculate_adjustment ops measurement data_year_energy
           = Inr (replicate 24 0, replicate 24 0)"
  using assms by (simp add: calculate_adjustment_def np_zeros_arrays_def)

theorem no_measurement_zero_adjustment_witness:
  "max_datetime no_measurement = None
   \<and> load_total no_measurement 0 0 one_hour = Inl OtherError
   \<and> calculate_adjustment hours_ops no_measurement flat_table
       = Inr (replicate 24 0, replicate 24 0)"
proof -
  have h: "max_datetime no_measurement = None" by (simp add: no_measurement_def)
  have l: "load_total no_measurement 0 0 one_hour = Inl OtherError"
    by (simp add: no_measurement_def)
  show ?thesis
    using no_measurement_zero_adjustment [OF h, of hours_ops flat_table] h l by simp
qed

subsection \<open>Errors of \<open>load_data\<close>\<close>

lemma load_data_try_not_found:
  "load_data_try loaded cfg = Inl FileNotFoundError \<longleftrightarrow> loaded = Inl FileNotFoundError"
  by (auto simp: load_data_try_def npz_getitem_def np_array_zip_def np_mul_def
      split: sum.splits option.splits if_splits)

lemma load_data_try_success:
  assumes "loaded = Inr file_data"
    and "file_data ''yearly_profiles'' = Some p"
    and "file_data ''yearly_profiles_std'' = Some q"
    and "list_all (\<lambda>(m, sd). length m = length sd) (zip p q)"
    and "loadakkudoktor_year_energy cfg = Some y"
  shows "load_data_try loaded cfg
           = Inr (map (\<lambda>(m, sd). (map (\<lambda>x. x * y * 1000) m, map (\<lambda>x. x * y * 1000) sd)) (zip p q))"
  using assms
  by (simp add: load_data_try_def npz_getitem_def np_array_zip_def np_mul_def np_scale_def
      case_prod_unfold)

text \<open>
  Claim C9: \<open>load_data\<close> raises FileNotFoundError if and only if \<open>np.load\<close>
  found no file; every other exception of the read, of the two key lookups, of
  the array construction or of the scaling becomes ValueError; no other error
  leaves the method; where the body of the \<open>try\<close> succeeds, its table is
  returned, and for an archive with both arrays and a yearly energy \<open>y\<close> that
  is the table of all values times \<open>y\<close> times 1000.  The read is one value of
  the model and \<open>load_data\<close> is not recursive: nothing is tried twice.
\<close>

theorem load_data_error_kinds:
  "(load_data loaded cfg = Inl FileNotFoundError \<longleftrightarrow> loaded = Inl FileNotFoundError)
   \<and> (\<forall>e. load_data_try loaded cfg = Inl e \<and> e \<noteq> FileNotFoundError
          \<longrightarrow> load_data loaded cfg = Inl ValueError)
   \<and> (\<forall>e. load_data loaded cfg = Inl e \<longrightarrow> e = FileNotFoundError \<or> e = ValueError)
   \<and> (\<forall>data. load_data loaded cfg = Inr data \<longleftrightarrow> load_data_try loaded cfg = Inr data)
   \<and> (\<forall>file_data p q y.
          loaded = Inr file_data \<and> file_data ''yearly_profiles'' = Some p
          \<and> file_data ''yearly_profiles_std'' = Some q
          \<and> list_all (\<lambda>(m, sd). length m = length sd) (zip p q)
          \<and> loadakkudoktor_year_energy cfg = Some y
          \<longrightarrow> load_data loaded cfg
                = Inr (map (\<lambda>(m, sd). (map (\<lambda>x. x * y * 1000) m, map (\<lambda>x. x * y * 1000) sd))
                         (zip p q)))"
proof (intro conjI allI impI)
  show "load_data loaded cfg = Inl FileNotFoundError \<longleftrightarrow> loaded = Inl FileNotFoundError"
    using load_data_try_not_found [of loaded cfg]
    by (auto simp: load_data_def split: sum.splits if_splits)
next
  fix e assume "load_data_try loaded cfg = Inl e \<and> e \<noteq> FileNotFoundError"
  then show "load_data loaded cfg = Inl ValueError" by (simp add: load_data_def)
next
  fix e assume "load_data loaded cfg = Inl e"
  then show "e = FileNotFoundError \<or> e = ValueError"
    by (auto simp: load_data_def split: sum.splits if_splits)
next
  fix data
  show "load_data loaded cfg = Inr data \<longleftrightarrow> load_data_try loaded cfg = Inr data"
    by (auto simp: load_data_def split: sum.splits if_splits)
next
  fix file_data p q y
  assume "loaded = Inr file_data \<and> file_data ''yearly_profiles'' = Some p
          \<and> file_data ''yearly_profiles_std'' = Some q
          \<and> list_all (\<lambda>(m, sd). length m = length sd) (zip p q)
          \<and> loadakkudoktor_year_energy cfg = Some y"
  then have "load_data_try loaded cfg
           = Inr (map (\<lambda>(m, sd). (map (\<lambda>x. x * y * 1000) m, map (\<lambda>x. x * y * 1000) sd)) (zip p q))"
    using load_data_try_success by blast
  then show "load_data loaded cfg
           = Inr (map (\<lambda>(m, sd). (map (\<lambda>x. x * y * 1000) m, map (\<lambda>x. x * y * 1000) sd)) (zip p q))"
    by (simp add: load_data_def)
qed

theorem load_data_error_kinds_witness:
  "load_data (Inl FileNotFoundError) \<lparr>loadakkudoktor_year_energy = Some 3\<rparr> = Inl FileNotFoundError
   \<and> load_data_try (Inl OtherError) \<lparr>loadakkudoktor_year_energy = Some 3\<rparr> = Inl OtherError
   \<and> load_data (Inl OtherError) \<lparr>loadakkudoktor_year_energy = Some 3\<rparr> = Inl ValueError
   \<and> load_data_try (Inr (\<lambda>key. None)) \<lparr>loadakkudoktor_year_energy = Some 3\<rparr> = Inl KeyError
   \<and> load_data (Inr (\<lambda>key. None)) \<lparr>loadakkudoktor_year_energy = Some 3\<rparr> = Inl ValueError
   \<and> load_data (Inr sample_archive) \<lparr>loadakkudoktor_year_energy = Some 3\<rparr>
       = Inr [([1500, 750], [300, 300]), ([375, 375], [150, 150])]"
proof -
  let ?cfg = "\<lparr>loadakkudoktor_year_energy = Some 3\<rparr>"
  have a: "load_data (Inl FileNotFoundError) ?cfg = Inl FileNotFoundError"
    using load_data_error_kinds [of "Inl FileNotFoundError" ?cfg] by blast
  have t1: "load_data_try (Inl OtherError) ?cfg = Inl OtherError"
    by (simp add: load_data_try_def)
  have b: "load_data (Inl OtherError) ?cfg = Inl ValueError"
    using load_data_error_kinds [of "Inl OtherError" ?cfg] t1 by blast
  have t2: "load_data_try (Inr (\<lambda>key. None)) ?cfg = Inl KeyError"
    by (simp add: load_data_try_def npz_getitem_def)
  have c: "load_data (Inr (\<lambda>key. None)) ?cfg = Inl ValueError"
    using load_data_error_kinds [of "Inr (\<lambda>key. None)" ?cfg] t2 by blast
  have p: "sample_archive ''yearly_profiles'' = Some [[1/2, 1/4], [1/8, 1/8]]"
    and q: "sample_archive ''yearly_profiles_std'' = Some [[1/10, 1/10], [1/20, 1/20]]"
    by (simp_all add: sample_archive_def)
  have shape: "list_all (\<lambda>(m, sd). length m = length sd)
                 (zip [[1/2, 1/4], [1/8, 1/8]] [[1/10, 1/10], [1/20, 1/20::real]])"
    by simp
  have "load_data (Inr sample_archive) ?cfg
          = Inr (map (\<lambda>(m, sd). (map (\<lambda>x. x * 3 * 1000) m, map (\<lambda>x. x * 3 * 1000) sd))
                   (zip [[1/2, 1/4], [1/8, 1/8]] [[1/10, 1/10], [1/20, 1/20]]))"
    using load_data_error_kinds [of "Inr sample_archive" ?cfg] p q shape by simp
  then have d: "load_data (Inr sample_archive) ?cfg
                  = Inr [([1500, 750], [300, 300]), ([375, 375], [150, 150])]"
    by simp
  show ?thesis using a t1 b t2 c d by simp
qed

subsection \<open>Absent yearly energy\<close>

text \<open>
  Claim C7 says that without \<open>loadakkudoktor_year_energy\<close> the method still
  succeeds and returns a table of zeros.  The field is then \<open>None\<close>, the
  product of line 95 raises TypeError, and the second \<open>except\<close> clause turns
  it into ValueError.
\<close>

theorem absent_year_energy_counterexample:
  "loadakkudoktor_year_energy \<lparr>loadakkudoktor_year_energy = None\<rparr> = None
   \<and> load_data (Inr sample_archive) \<lparr>loadakkudoktor_year_energy = None\<rparr> = Inl ValueError"
  by (simp add: load_data_def load_data_try_def npz_getitem_def np_array_zip_def np_mul_def
      sample_archive_def)

text \<open>
  Claim C7 as amended: if \<open>loadakkudoktor_year_energy\<close> is absent, \<open>load_data\<close>
  raises ValueError for every archive that is read, holds both arrays and at
  least one value.
\<close>

theorem absent_year_energy_raises:
  assumes "loadakkudoktor_year_energy cfg = None"
    and "loaded = Inr file_data"
    and "file_data ''yearly_profiles'' = Some p"
    and "file_data ''yearly_profiles_std'' = Some q"
    and "\<not> list_all (\<lambda>(m, sd). m = [] \<and> sd = []) (zip p q)"
  shows "load_data loaded cfg = Inl ValueError"
  using assms
  by (simp add: load_data_def load_data_try_def npz_getitem_def np_array_zip_def np_mul_def)

theorem absent_year_energy_raises_witness:
  "loadakkudoktor_year_energy \<lparr>loadakkudoktor_year_energy = None\<rparr> = None
   \<and> sample_archive ''yearly_profiles'' = Some [[1/2, 1/4], [1/8, 1/8]]
   \<and> sample_archive ''yearly_profiles_std'' = Some [[1/10, 1/10], [1/20, 1/20]]
   \<and> \<not> list_all (\<lambda>(m, sd). m = [] \<and> sd = [])
          (zip [[1/2, 1/4], [1/8, 1/8]] [[1/10, 1/10], [1/20, 1/20::real]])
   \<and> load_data (Inr sample_archive) \<lparr>loadakkudoktor_year_energy = None\<rparr> = Inl ValueError"
proof -
  have h1: "loadakkudoktor_year_energy \<lparr>loadakkudoktor_year_energy = None\<rparr> = None" by simp
  have h3: "sample_archive ''yearly_profiles'' = Some [[1/2, 1/4], [1/8, 1/8]]"
    and h4: "sample_archive ''yearly_profiles_std'' = Some [[1/10, 1/10], [1/20, 1/20]]"
    by (simp_all add: sample_archive_def)
  have h5: "\<not> list_all (\<lambda>(m, sd). m = [] \<and> sd = [])
          (zip [[1/2, 1/4], [1/8, 1/8]] [[1/10, 1/10], [1/20, 1/20::real]])"
    by simp
  show ?thesis
    using absent_year_energy_raises [OF h1 refl h3 h4 h5] h1 h3 h4 h5 by simp
qed


end
